theory Spec2Isabelle
  imports Main "HOL-Library.Word"
begin

unbundle bit_operations_syntax

section \<open>Data model of the firmware (water_suplly.ino)\<close>

type_synonym u8 = "8 word"
type_synonym u16 = "16 word"
type_synonym u32 = "32 word"

text \<open>The \<open>Config\<close> struct; the field widths are the C types of the source.\<close>

record Config =
  threshold :: u16
  flowPct :: u8
  startHour :: u8
  startMin :: u8
  durationSec :: u16
  scheduleOn :: bool
  relayActiveLow :: bool

text \<open>The member initialisers of the struct (the compiled-in defaults).\<close>

definition default_cfg :: Config where
  "default_cfg = \<lparr>threshold = 2200, flowPct = 100, startHour = 7, startMin = 0,
     durationSec = 30, scheduleOn = False, relayActiveLow = True\<rparr>"

text \<open>Pins and build-time modes.\<close>

definition SOIL_PIN :: nat where "SOIL_PIN = 34"
definition LEVEL_PIN :: nat where "LEVEL_PIN = 35"
definition RELAY_PIN :: nat where "RELAY_PIN = 26"
definition PUMP_PWM_PIN :: nat where "PUMP_PWM_PIN = 25"
definition RELAY_MODE :: bool where "RELAY_MODE = True"
definition PWM_MODE :: bool where "PWM_MODE = False"

text \<open>Values held by the \<open>Preferences\<close> key/value store.\<close>

datatype pval = UShort u16 | UChar u8 | PBool bool

text \<open>The BLE characteristics the firmware writes to, and what it writes.\<close>

datatype chr = CHR_SOIL | CHR_LEVEL | CHR_STATE | CHR_CONFIG | CHR_LOG

datatype chr_value = Bytes "u8 list" | Text string

text \<open>
  Every call into a collaborator is recorded, in program order, in a trace:
  \<open>Notify c v\<close> stands for \<open>c->setValue(v); c->notify()\<close>, \<open>SetValue c v\<close> for a
  \<open>setValue\<close> alone, \<open>Delay ms\<close> for a blocking \<open>delay(ms)\<close>.
\<close>

datatype event =
    DigitalWrite nat bool
  | LedcWrite nat u8
  | Notify chr chr_value
  | SetValue chr chr_value
  | SerialPrintln string
  | StartAdvertising
  | Delay u32

text \<open>
  The global variables of the sketch, the stored preferences, the millisecond clock
  read by \<open>millis()\<close> and the trace of collaborator calls.
\<close>

record sys =
  cfg :: Config
  prefs :: "string \<rightharpoonup> pval"
  pumpRunning :: bool
  clientConnected :: bool
  lastSoilTime :: u32
  lastLevelTime :: u32
  secondsToday :: u32
  lastSecond :: u32
  wateredToday :: bool
  millis :: u32
  trace :: "event list"

text \<open>The initialisers of the globals, before \<open>setup()\<close> runs.\<close>

definition init_sys :: sys where
  "init_sys = \<lparr>cfg = default_cfg, prefs = Map.empty, pumpRunning = False,
     clientConnected = False, lastSoilTime = 0, lastLevelTime = 0, secondsToday = 0,
     lastSecond = 0, wateredToday = False, millis = 0, trace = []\<rparr>"

section \<open>Collaborator calls\<close>

definition emit :: "event \<Rightarrow> sys \<Rightarrow> sys" where
  "emit e s = s\<lparr>trace := trace s @ [e]\<rparr>"

text \<open>\<open>delay(ms)\<close> blocks the caller; the clock moves on by \<open>ms\<close> (modulo \<open>2^32\<close>).\<close>

definition delay :: "u32 \<Rightarrow> sys \<Rightarrow> sys" where
  "delay ms s = emit (Delay ms) (s\<lparr>millis := millis s + ms\<rparr>)"

text \<open>
  \<open>analogRead(pin)\<close> samples a signal given by the environment: \<open>adc pin t\<close> is the
  reading of \<open>pin\<close> at clock value \<open>t\<close>.
\<close>

type_synonym adc = "nat \<Rightarrow> u32 \<Rightarrow> u16"

definition analogRead :: "adc \<Rightarrow> nat \<Rightarrow> sys \<Rightarrow> u16" where
  "analogRead a pin s = a pin (millis s)"

text \<open>
  \<open>map(x, in_min, in_max, out_min, out_max)\<close> of the Arduino core, on \<open>long\<close> with
  C's truncating division. It is used only under \<open>PWM_MODE\<close>.
\<close>

definition tdiv :: "int \<Rightarrow> int \<Rightarrow> int" where
  "tdiv a b = sgn a * sgn b * (\<bar>a\<bar> div \<bar>b\<bar>)"

definition map_long :: "int \<Rightarrow> int \<Rightarrow> int \<Rightarrow> int \<Rightarrow> int \<Rightarrow> int" where
  "map_long x in_min in_max out_min out_max =
     (if in_max - in_min = 0 then - 1
      else tdiv ((x - in_min) * (out_max - out_min)) (in_max - in_min) + out_min)"

section \<open>Save and load\<close>

definition saveConfig :: "sys \<Rightarrow> sys" where
  "saveConfig s = s\<lparr>prefs := (prefs s)
     (''th'' \<mapsto> UShort (threshold (cfg s)),
      ''fp'' \<mapsto> UChar (flowPct (cfg s)),
      ''sh'' \<mapsto> UChar (startHour (cfg s)),
      ''sm'' \<mapsto> UChar (startMin (cfg s)),
      ''dur'' \<mapsto> UShort (durationSec (cfg s)),
      ''sch'' \<mapsto> PBool (scheduleOn (cfg s)),
      ''inv'' \<mapsto> PBool (relayActiveLow (cfg s)))\<rparr>"

definition getUShort :: "(string \<rightharpoonup> pval) \<Rightarrow> string \<Rightarrow> u16 \<Rightarrow> u16" where
  "getUShort p k d = (case p k of Some (UShort v) \<Rightarrow> v | _ \<Rightarrow> d)"

definition getUChar :: "(string \<rightharpoonup> pval) \<Rightarrow> string \<Rightarrow> u8 \<Rightarrow> u8" where
  "getUChar p k d = (case p k of Some (UChar v) \<Rightarrow> v | _ \<Rightarrow> d)"

definition getBool :: "(string \<rightharpoonup> pval) \<Rightarrow> string \<Rightarrow> bool \<Rightarrow> bool" where
  "getBool p k d = (case p k of Some (PBool v) \<Rightarrow> v | _ \<Rightarrow> d)"

definition loadConfig :: "sys \<Rightarrow> sys" where
  "loadConfig s = s\<lparr>cfg :=
     \<lparr>threshold = getUShort (prefs s) ''th'' (threshold (cfg s)),
      flowPct = getUChar (prefs s) ''fp'' (flowPct (cfg s)),
      startHour = getUChar (prefs s) ''sh'' (startHour (cfg s)),
      startMin = getUChar (prefs s) ''sm'' (startMin (cfg s)),
      durationSec = getUShort (prefs s) ''dur'' (durationSec (cfg s)),
      scheduleOn = getBool (prefs s) ''sch'' (scheduleOn (cfg s)),
      relayActiveLow = getBool (prefs s) ''inv'' (relayActiveLow (cfg s))\<rparr>\<rparr>"

section \<open>Pack and unpack of the 10-byte configuration record\<close>

definition packConfig :: "Config \<Rightarrow> u8 list" where
  "packConfig c =
     [ucast (threshold c AND 0xFF),
      ucast (drop_bit 8 (threshold c)),
      flowPct c,
      startHour c,
      startMin c,
      ucast (durationSec c AND 0xFF),
      ucast (drop_bit 8 (durationSec c)),
      (if scheduleOn c then 1 else 0),
      (if relayActiveLow c then 1 else 0),
      0xAA]"

text \<open>
  \<open>unpackConfig(data, len)\<close>: the payload is the byte list, \<open>len\<close> its length. The
  bytes are promoted to \<open>int\<close> (32 bits) before \<open>|\<close> and \<open><<\<close>, the result is cut to
  the 16-bit field; a byte assigned to a \<open>bool\<close> is true when it is not zero.
\<close>

definition unpackConfig :: "u8 list \<Rightarrow> sys \<Rightarrow> sys" where
  "unpackConfig data s =
     (if length data < 10 then s
      else saveConfig (s\<lparr>cfg := (cfg s)
        \<lparr>threshold := ucast ((ucast (data ! 0) :: u32) OR push_bit 8 (ucast (data ! 1) :: u32)),
         flowPct := data ! 2,
         startHour := data ! 3,
         startMin := data ! 4,
         durationSec := ucast ((ucast (data ! 5) :: u32) OR push_bit 8 (ucast (data ! 6) :: u32)),
         scheduleOn := (data ! 7 \<noteq> 0),
         relayActiveLow := (data ! 8 \<noteq> 0)\<rparr>\<rparr>))"

section \<open>Logging and pump control\<close>

text \<open>
  \<open>log\<close>: the line always goes to the serial port, and to the log characteristic when a
  client is connected (\<open>pLogChr\<close> is set by \<open>setup()\<close> before any handler runs).
\<close>

definition log :: "string \<Rightarrow> sys \<Rightarrow> sys" where
  "log msg s =
     (let s1 = emit (SerialPrintln msg) s
      in if clientConnected s1 then emit (Notify CHR_LOG (Text msg)) s1 else s1)"

definition setPump :: "bool \<Rightarrow> sys \<Rightarrow> sys" where
  "setPump on s =
     (let s1 = s\<lparr>pumpRunning := on\<rparr>;
          s2 = (if RELAY_MODE
                then emit (DigitalWrite RELAY_PIN (if relayActiveLow (cfg s1) then \<not> on else on)) s1
                else s1);
          s3 = (if PWM_MODE
                then emit (LedcWrite 0
                       (if on then word_of_int (map_long (uint (flowPct (cfg s2))) 0 100 0 255) else 0)) s2
                else s2);
          s4 = emit (Notify CHR_STATE (Bytes [if on then 1 else 0, flowPct (cfg s3)])) s3
      in log (if on then ''Pump ON'' else ''Pump OFF'') s4)"

section \<open>BLE callbacks\<close>

definition onConnect :: "sys \<Rightarrow> sys" where
  "onConnect s = log ''BLE Client connected'' (s\<lparr>clientConnected := True\<rparr>)"

definition onDisconnect :: "sys \<Rightarrow> sys" where
  "onDisconnect s =
     emit StartAdvertising
       (log ''BLE Client disconnected - Restarting advertising'' (s\<lparr>clientConnected := False\<rparr>))"

text \<open>\<open>c_str()\<close> ends the text at the first NUL byte.\<close>

definition c_str :: "string \<Rightarrow> string" where
  "c_str v = takeWhile (\<lambda>c. c \<noteq> CHR 0x00) v"

definition startsWith :: "string \<Rightarrow> string \<Rightarrow> bool" where
  "startsWith s p = (take (length p) s = p)"

text \<open>
  \<open>String::toInt()\<close> is \<open>atol\<close>: leading white space, an optional sign, decimal
  digits; the value is clamped to the range of \<open>long\<close> (32 bits) and 0 without digits.
\<close>

definition isspace :: "char \<Rightarrow> bool" where
  "isspace c = (c \<in> set [CHR '' '', CHR 0x09, CHR 0x0A, CHR 0x0B, CHR 0x0C, CHR 0x0D])"

definition isdigit :: "char \<Rightarrow> bool" where
  "isdigit c = (48 \<le> (of_char c :: nat) \<and> (of_char c :: nat) \<le> 57)"

definition toInt :: "string \<Rightarrow> u32" where
  "toInt str =
     (let t = dropWhile isspace str;
          neg = (case t of [] \<Rightarrow> False | c # _ \<Rightarrow> c = CHR ''-'');
          u = (case t of [] \<Rightarrow> [] | c # r \<Rightarrow> if c = CHR ''-'' \<or> c = CHR ''+'' then r else t);
          v = foldl (\<lambda>a d. 10 * a + (int (of_char d) - 48)) 0 (takeWhile isdigit u);
          w = (if neg then - v else v)
      in word_of_int (max (- (2 ^ 31)) (min (2 ^ 31 - 1) w)))"

text \<open>Decimal text of a number, as \<open>String + cfg.threshold\<close> renders it.\<close>

fun decimal :: "nat \<Rightarrow> string" where
  "decimal n =
     (if n < 10 then [char_of (48 + n)]
      else decimal (n div 10) @ [char_of (48 + n mod 10)])"

text \<open>
  The sampling loop of AUTOTUNE: while less than 10000 ms have passed since \<open>t0\<close>, add
  a reading to \<open>sum\<close>, count it in \<open>n\<close> and wait 100 ms. \<open>n\<close> is a C \<open>int\<close>, held here
  as its 32-bit pattern.
\<close>

function autotune_sample :: "adc \<Rightarrow> u32 \<Rightarrow> u32 \<Rightarrow> u32 \<Rightarrow> sys \<Rightarrow> u32 \<times> u32 \<times> sys" where
  "autotune_sample a t0 sumv n s =
     (if millis s - t0 < 10000
      then autotune_sample a t0 (sumv + ucast (analogRead a SOIL_PIN s)) (n + 1) (delay 100 s)
      else (sumv, n, s))"
  by pat_completeness auto
termination
proof (relation "measure (\<lambda>(a, t0, sumv, n, s). 10000 - unat (millis s - t0))")
  show "wf (measure (\<lambda>(a, t0, sumv, n, s). 10000 - unat (millis s - t0)))"
    by simp
next
  fix a :: adc and t0 sumv n :: u32 and s :: sys
  assume lt: "millis s - t0 < 10000"
  have eq: "millis (delay 100 s) - t0 = (millis s - t0) + 100"
    by (simp add: delay_def emit_def)
  from lt have b: "unat (millis s - t0) < 10000"
    by (simp add: word_less_nat_alt)
  then have "unat ((millis s - t0) + 100) = unat (millis s - t0) + 100"
    by (simp add: unat_word_ariths)
  then have u: "unat (millis (delay 100 s) - t0) = unat (millis s - t0) + 100"
    by (simp only: eq)
  show "((a, t0, sumv + ucast (analogRead a SOIL_PIN s), n + 1, delay 100 s), (a, t0, sumv, n, s))
          \<in> measure (\<lambda>(a, t0, sumv, n, s). 10000 - unat (millis s - t0))"
    using b by (simp add: u)
qed

text \<open>Integer division traps on a zero divisor.\<close>

datatype fault = DivideByZero

definition udiv :: "u32 \<Rightarrow> u32 \<Rightarrow> fault + u32" where
  "udiv a b = (if b = 0 then Inl DivideByZero else Inr (a div b))"

text \<open>
  The code after the sampling loop: \<open>if (n > 0) { avg = sum / n; ... }\<close>. The division
  is unsigned (\<open>sum\<close> is \<open>uint32_t\<close>), its result is cut to \<open>uint16_t\<close>, and so is
  \<open>avg + 200\<close>. The arrow in the log line is the UTF-8 text of the source.
\<close>

definition autotune_finish :: "u32 \<Rightarrow> u32 \<Rightarrow> sys \<Rightarrow> fault + sys" where
  "autotune_finish sumv n s =
     (if 0 < sint n then
        (case udiv sumv n of
           Inl f \<Rightarrow> Inl f
         | Inr q \<Rightarrow>
            (let avg = (ucast q :: u16);
                 s1 = s\<lparr>cfg := (cfg s)\<lparr>threshold := avg + 200\<rparr>\<rparr>;
                 s2 = saveConfig s1;
                 s3 = log (''Autotune done '' @ [CHR 0xE2, CHR 0x86, CHR 0x92] @ '' new threshold = ''
                            @ decimal (unat (threshold (cfg s2)))) s2
             in Inr (emit (Notify CHR_CONFIG (Bytes (packConfig (cfg s3)))) s3)))
      else Inr s)"

text \<open>\<open>CmdCallbacks::onWrite\<close>: \<open>v\<close> is the value written to the command characteristic.\<close>

definition CmdCallbacks_onWrite :: "adc \<Rightarrow> string \<Rightarrow> sys \<Rightarrow> fault + sys" where
  "CmdCallbacks_onWrite a v s =
     (let cmd = c_str v in
      if cmd = ''ON'' then Inr (setPump True s)
      else if cmd = ''OFF'' then Inr (setPump False s)
      else if cmd = ''TOGGLE'' then Inr (setPump (\<not> pumpRunning s) s)
      else if startsWith cmd ''WATER:'' then
        (let sec0 = toInt (drop 6 cmd);
             sec = (if sint sec0 \<le> 0 then ucast (durationSec (cfg s)) else sec0);
             s1 = setPump True s;
             s2 = delay (sec * 1000) s1;
             s3 = setPump False s2
         in Inr (log ''Manual watering finished'' s3))
      else if startsWith cmd ''AUTOTUNE'' then
        (let s1 = log ''Autotune started (10 sec dry reading)...'' s;
             s2 = delay 2000 s1;
             (sumv, n, s3) = autotune_sample a (millis s2) 0 0 s2
         in autotune_finish sumv n s3)
      else Inr (log (''Unknown command: '' @ cmd) s))"

definition ConfigCallbacks_onRead :: "sys \<Rightarrow> sys" where
  "ConfigCallbacks_onRead s = emit (SetValue CHR_CONFIG (Bytes (packConfig (cfg s)))) s"

definition ConfigCallbacks_onWrite :: "u8 list \<Rightarrow> sys \<Rightarrow> sys" where
  "ConfigCallbacks_onWrite v s = log ''Config updated from app'' (unpackConfig v s)"

section \<open>The main loop\<close>

text \<open>The one-second ticker.\<close>

definition one_second_ticker :: "sys \<Rightarrow> sys" where
  "one_second_ticker s =
     (if millis s - lastSecond s \<ge> 1000 then
        (let s1 = s\<lparr>lastSecond := millis s\<rparr>;
             s2 = s1\<lparr>secondsToday := (secondsToday s1 + 1) mod 86400\<rparr>
         in if secondsToday s2 < 10 then s2\<lparr>wateredToday := False\<rparr> else s2)
      else s)"

text \<open>
  A timed run holds the pump on inside a blocking \<open>delay\<close>:
  \<open>setPump(true); delay(cfg.durationSec * 1000);\<close> starts it, and the statements after
  the \<open>delay\<close> end it.
\<close>

definition watering_begin :: "sys \<Rightarrow> sys" where
  "watering_begin s =
     (let s1 = setPump True s in delay (ucast (durationSec (cfg s1)) * 1000) s1)"

definition auto_watering_end :: "sys \<Rightarrow> sys" where
  "auto_watering_end s = log ''Auto watering completed'' (setPump False s)"

definition scheduled_watering_end :: "sys \<Rightarrow> sys" where
  "scheduled_watering_end s =
     log ''Scheduled watering done'' ((setPump False s)\<lparr>wateredToday := True\<rparr>)"

text \<open>The soil block once the reading \<open>soil\<close> has been taken.\<close>

definition soil_eval :: "u16 \<Rightarrow> sys \<Rightarrow> sys" where
  "soil_eval soil s =
     (let s1 = emit (Notify CHR_SOIL (Bytes [ucast soil, ucast (drop_bit 8 soil)])) s;
          s2 = s1\<lparr>lastSoilTime := millis s1\<rparr>
      in if \<not> scheduleOn (cfg s2) \<and> soil > threshold (cfg s2) \<and> \<not> pumpRunning s2
         then auto_watering_end (watering_begin s2)
         else s2)"

definition soil_block :: "adc \<Rightarrow> sys \<Rightarrow> sys" where
  "soil_block a s =
     (if millis s - lastSoilTime s > 1000 then soil_eval (analogRead a SOIL_PIN s) s else s)"

definition level_block :: "adc \<Rightarrow> sys \<Rightarrow> sys" where
  "level_block a s =
     (if millis s - lastLevelTime s > 2000 then
        (let level = analogRead a LEVEL_PIN s;
             s1 = emit (Notify CHR_LEVEL (Bytes [ucast level, ucast (drop_bit 8 level)])) s
         in s1\<lparr>lastLevelTime := millis s1\<rparr>)
      else s)"

text \<open>Daily scheduled watering.\<close>

definition schedule_block :: "sys \<Rightarrow> sys" where
  "schedule_block s =
     (if scheduleOn (cfg s) then
        (let nowSec = (ucast (startHour (cfg s)) * 3600 + ucast (startMin (cfg s)) * 60 :: u32)
         in if \<not> wateredToday s \<and> secondsToday s \<ge> nowSec \<and> secondsToday s < nowSec + 20
            then scheduled_watering_end (watering_begin s)
            else s)
      else s)"

definition loop :: "adc \<Rightarrow> sys \<Rightarrow> sys" where
  "loop a s = delay 50 (schedule_block (level_block a (soil_block a (one_second_ticker s))))"

text \<open>
  Successive passes of \<open>loop()\<close>; before each pass the clock moves on by the time
  \<open>dt\<close> the caller spent outside \<open>delay\<close>.
\<close>

fun loops :: "adc \<Rightarrow> u32 list \<Rightarrow> sys \<Rightarrow> sys" where
  "loops a [] s = s"
| "loops a (dt # dts) s = loops a dts (loop a (s\<lparr>millis := millis s + dt\<rparr>))"

section \<open>Observing the trace\<close>

text \<open>
  Every call of \<open>setPump\<close> publishes the pump state once, as \<open>[on, flowPct]\<close>, on the
  state characteristic, and nothing else writes that characteristic. So the calls of
  \<open>setPump\<close> in a trace are its state notifications, and the runs started are those
  whose first byte is not zero.
\<close>

fun is_setPump :: "event \<Rightarrow> bool" where
  "is_setPump (Notify CHR_STATE v) = True"
| "is_setPump e = False"

fun is_pump_on :: "event \<Rightarrow> bool" where
  "is_pump_on (Notify CHR_STATE (Bytes (b # bs))) = (b \<noteq> 0)"
| "is_pump_on e = False"

definition setPump_calls :: "event list \<Rightarrow> nat" where
  "setPump_calls tr = length (filter is_setPump tr)"

definition pump_on_calls :: "event list \<Rightarrow> nat" where
  "pump_on_calls tr = length (filter is_pump_on tr)"

text \<open>
  The writes to the relay pin, the actuator itself: each call of \<open>setPump\<close> makes one.
\<close>

fun is_relay_write :: "event \<Rightarrow> bool" where
  "is_relay_write (DigitalWrite pin lvl) = (pin = RELAY_PIN)"
| "is_relay_write e = False"

definition relay_writes :: "event list \<Rightarrow> nat" where
  "relay_writes tr = length (filter is_relay_write tr)"

text \<open>
  The clock ticks that a sequence of passes of \<open>loop()\<close> makes: the passes that find
  the one-second ticker due.
\<close>

fun ticks :: "adc \<Rightarrow> u32 list \<Rightarrow> sys \<Rightarrow> nat" where
  "ticks a [] s = 0"
| "ticks a (dt # dts) s =
     (if millis s + dt - lastSecond s \<ge> 1000 then 1 else 0)
       + ticks a dts (loop a (s\<lparr>millis := millis s + dt\<rparr>))"

section \<open>Concrete signals and states\<close>

text \<open>A sensor that reads \<open>r\<close> on every pin at all times.\<close>

definition const_adc :: "u16 \<Rightarrow> adc" where
  "const_adc r = (\<lambda>pin t. r)"

text \<open>One second before midnight, with the day's watering done and a tick due.\<close>

definition tick_state :: sys where
  "tick_state = init_sys\<lparr>secondsToday := 86399, wateredToday := True, millis := 1000\<rparr>"

text \<open>Schedule on with the default start time 07:00, at the first second of the window.\<close>

definition sched_state :: sys where
  "sched_state = init_sys\<lparr>cfg := default_cfg\<lparr>scheduleOn := True\<rparr>, secondsToday := 25200\<rparr>"

text \<open>The pump switched on by hand: the initial state but for \<open>pumpRunning\<close>.\<close>

definition running_state :: sys where
  "running_state = init_sys\<lparr>pumpRunning := True\<rparr>"

text \<open>The same with the schedule on, at the first second of the 07:00 window.\<close>

definition running_in_window :: sys where
  "running_in_window =
     init_sys\<lparr>cfg := default_cfg\<lparr>scheduleOn := True\<rparr>, pumpRunning := True, secondsToday := 25200\<rparr>"

text \<open>
  A timed run of the default configuration under way: \<open>setPump(true)\<close> is done and
  \<open>loop()\<close> is inside its \<open>delay(30000)\<close>.
\<close>

definition run_in_progress :: sys where
  "run_in_progress = watering_begin init_sys"

section \<open>Normal forms of the primitive operations\<close>

lemma log_eq:
  "log m s = s\<lparr>trace := trace s @ SerialPrintln m #
                (if clientConnected s then [Notify CHR_LOG (Text m)] else [])\<rparr>"
  by (simp add: log_def emit_def Let_def)

lemma setPump_eq:
  "setPump on s = s\<lparr>pumpRunning := on,
     trace := trace s @
       [DigitalWrite RELAY_PIN (if relayActiveLow (cfg s) then \<not> on else on),
        Notify CHR_STATE (Bytes [if on then 1 else 0, flowPct (cfg s)]),
        SerialPrintln (if on then ''Pump ON'' else ''Pump OFF'')] @
       (if clientConnected s then [Notify CHR_LOG (Text (if on then ''Pump ON'' else ''Pump OFF''))]
        else [])\<rparr>"
  by (simp add: setPump_def log_eq emit_def Let_def RELAY_MODE_def PWM_MODE_def)

lemma delay_eq: "delay ms s = s\<lparr>millis := millis s + ms, trace := trace s @ [Delay ms]\<rparr>"
  by (simp add: delay_def emit_def)

lemma watering_begin_eq:
  "watering_begin s = s\<lparr>pumpRunning := True,
     millis := millis s + ucast (durationSec (cfg s)) * 1000,
     trace := trace s @
       [DigitalWrite RELAY_PIN (\<not> relayActiveLow (cfg s)),
        Notify CHR_STATE (Bytes [1, flowPct (cfg s)]),
        SerialPrintln ''Pump ON''] @
       (if clientConnected s then [Notify CHR_LOG (Text ''Pump ON'')] else []) @
       [Delay (ucast (durationSec (cfg s)) * 1000)]\<rparr>"
  by (simp add: watering_begin_def setPump_eq delay_eq Let_def)

lemma auto_watering_end_eq:
  "auto_watering_end s = s\<lparr>pumpRunning := False,
     trace := trace s @
       [DigitalWrite RELAY_PIN (relayActiveLow (cfg s)),
        Notify CHR_STATE (Bytes [0, flowPct (cfg s)]),
        SerialPrintln ''Pump OFF''] @
       (if clientConnected s then [Notify CHR_LOG (Text ''Pump OFF'')] else []) @
       SerialPrintln ''Auto watering completed'' #
       (if clientConnected s then [Notify CHR_LOG (Text ''Auto watering completed'')] else [])\<rparr>"
  by (simp add: auto_watering_end_def setPump_eq log_eq)

lemma scheduled_watering_end_eq:
  "scheduled_watering_end s = s\<lparr>pumpRunning := False, wateredToday := True,
     trace := trace s @
       [DigitalWrite RELAY_PIN (relayActiveLow (cfg s)),
        Notify CHR_STATE (Bytes [0, flowPct (cfg s)]),
        SerialPrintln ''Pump OFF''] @
       (if clientConnected s then [Notify CHR_LOG (Text ''Pump OFF'')] else []) @
       SerialPrintln ''Scheduled watering done'' #
       (if clientConnected s then [Notify CHR_LOG (Text ''Scheduled watering done'')] else [])\<rparr>"
  by (simp add: scheduled_watering_end_def setPump_eq log_eq)

lemma soil_eval_idle_eq:
  assumes "scheduleOn (cfg s) \<or> \<not> threshold (cfg s) < soil \<or> pumpRunning s"
  shows "soil_eval soil s = s\<lparr>lastSoilTime := millis s,
           trace := trace s @ [Notify CHR_SOIL (Bytes [ucast soil, ucast (drop_bit 8 soil)])]\<rparr>"
  using assms by (auto simp add: soil_eval_def emit_def Let_def)

lemma onWrite_ON: "CmdCallbacks_onWrite a ''ON'' s = Inr (setPump True s)"
  by (simp add: CmdCallbacks_onWrite_def c_str_def)

lemma onWrite_OFF: "CmdCallbacks_onWrite a ''OFF'' s = Inr (setPump False s)"
  by (simp add: CmdCallbacks_onWrite_def c_str_def)

section \<open>The configuration record on the wire\<close>

lemma low_mask: "(0xFF :: u16) = mask 8"
  by (simp add: mask_eq_exp_minus_1)

lemma le16_split:
  "ucast ((ucast (ucast (w AND 0xFF) :: u8) :: u32) OR
          push_bit 8 (ucast (ucast (drop_bit 8 w) :: u8) :: u32)) = (w :: u16)"
  unfolding low_mask
  by (rule bit_word_eqI) (auto simp add: bit_simps)

lemma or_is_add:
  "(ucast (lo :: u8) :: u32) OR push_bit 8 (ucast (hi :: u8) :: u32) = ucast lo + push_bit 8 (ucast hi)"
  by (rule disjunctive_add [symmetric]) (auto simp add: bit_simps dest: bit_imp_le_length)

lemma unat_ucast_8_32: "unat (ucast (b :: u8) :: u32) = unat b"
proof -
  have "unat b < 2 ^ 32"
    using unsigned_less [of b, where ?'a = nat] by simp
  then show ?thesis
    by (simp add: unsigned_ucast_eq take_bit_nat_eq_self)
qed

lemma le16_unat:
  "unat (ucast ((ucast (lo :: u8) :: u32) OR push_bit 8 (ucast (hi :: u8) :: u32)) :: u16)
     = unat lo + 256 * unat hi"
proof -
  have lo: "unat lo < 256" using unsigned_less [of lo, where ?'a = nat] by simp
  have hi: "unat hi < 256" using unsigned_less [of hi, where ?'a = nat] by simp
  have "unat ((ucast lo :: u32) + push_bit 8 (ucast hi :: u32)) = unat lo + 256 * unat hi"
    using lo hi by (simp add: unat_word_ariths push_bit_eq_mult unat_ucast_8_32)
  moreover have "unat lo + 256 * unat hi < 65536" using lo hi by simp
  ultimately show ?thesis
    by (simp add: or_is_add unsigned_ucast_eq take_bit_nat_eq_self)
qed

text \<open>
  C4: decoding the 10-byte encoding of a configuration gives that configuration back.
  The fields of \<open>Config\<close> have the widths of the wire fields, so this holds for every
  value of the type: \<open>packConfig\<close> yields 10 bytes, and \<open>unpackConfig\<close> of them sets
  the configuration to \<open>c\<close>, whatever it was before.
\<close>

theorem unpack_pack_roundtrip:
  "length (packConfig c) = 10 \<and> cfg (unpackConfig (packConfig c) s) = c"
  by (simp add: unpackConfig_def packConfig_def saveConfig_def le16_split)

theorem unpack_pack_roundtrip_witness:
  "cfg (unpackConfig (packConfig default_cfg) init_sys) = default_cfg
   \<and> packConfig default_cfg = [0x98, 0x08, 100, 7, 0, 30, 0, 0, 1, 0xAA]"
  using unpack_pack_roundtrip [of default_cfg init_sys]
  by (simp add: packConfig_def default_cfg_def)

text \<open>
  C5: a configuration write shorter than 10 bytes is rejected. \<open>unpackConfig\<close> returns
  at once and leaves the whole state as it was (no field of the configuration and no
  stored preference changes, and no byte of the payload is read). Its caller
  \<open>ConfigCallbacks::onWrite\<close> cannot tell and only adds its log line; the
  configuration and the stored preferences are those from before the write.
\<close>

theorem unpack_short_payload:
  assumes "length data < 10"
  shows "unpackConfig data s = s
       \<and> ConfigCallbacks_onWrite data s = log ''Config updated from app'' s
       \<and> cfg (ConfigCallbacks_onWrite data s) = cfg s
       \<and> prefs (ConfigCallbacks_onWrite data s) = prefs s"
  using assms by (simp add: unpackConfig_def ConfigCallbacks_onWrite_def log_eq)

theorem unpack_short_payload_witness:
  "length [1, 2, 3, 4, 5, 6, 7, 8, 9 :: u8] < 10
   \<and> unpackConfig [1, 2, 3, 4, 5, 6, 7, 8, 9] init_sys = init_sys
   \<and> cfg (ConfigCallbacks_onWrite [1, 2, 3, 4, 5, 6, 7, 8, 9] init_sys) = cfg init_sys
   \<and> prefs (ConfigCallbacks_onWrite [1, 2, 3, 4, 5, 6, 7, 8, 9] init_sys) = prefs init_sys"
  using unpack_short_payload [of "[1, 2, 3, 4, 5, 6, 7, 8, 9]" init_sys]
  by (simp add: log_eq)

text \<open>
  C9: a payload of at least 10 bytes is decoded with no validation. Bytes 7 and 8 give
  \<open>scheduleOn\<close> and \<open>relayActiveLow\<close>, true exactly when the byte is not zero; the
  16-bit fields are little-endian, the 8-bit fields are copied; byte 9 (where the
  encoder writes the version marker) is never read, so any value there gives the same
  result; and every field comes from the payload, none from the configuration before.
\<close>

theorem unpack_any_payload:
  assumes "10 \<le> length data"
  shows "scheduleOn (cfg (unpackConfig data s)) = (data ! 7 \<noteq> 0)
       \<and> relayActiveLow (cfg (unpackConfig data s)) = (data ! 8 \<noteq> 0)
       \<and> unat (threshold (cfg (unpackConfig data s))) = unat (data ! 0) + 256 * unat (data ! 1)
       \<and> flowPct (cfg (unpackConfig data s)) = data ! 2
       \<and> startHour (cfg (unpackConfig data s)) = data ! 3
       \<and> startMin (cfg (unpackConfig data s)) = data ! 4
       \<and> unat (durationSec (cfg (unpackConfig data s))) = unat (data ! 5) + 256 * unat (data ! 6)
       \<and> unpackConfig (data[9 := b]) s = unpackConfig data s
       \<and> cfg (unpackConfig data s') = cfg (unpackConfig data s)"
  using assms by (simp add: unpackConfig_def saveConfig_def le16_unat)

theorem unpack_any_payload_witness:
  "10 \<le> length [1, 2, 3, 4, 5, 6, 7, 0, 9, 0x55 :: u8]
   \<and> \<not> scheduleOn (cfg (unpackConfig [1, 2, 3, 4, 5, 6, 7, 0, 9, 0x55] init_sys))
   \<and> relayActiveLow (cfg (unpackConfig [1, 2, 3, 4, 5, 6, 7, 0, 9, 0x55] init_sys))
   \<and> unat (threshold (cfg (unpackConfig [1, 2, 3, 4, 5, 6, 7, 0, 9, 0x55] init_sys))) = 513
   \<and> unat (durationSec (cfg (unpackConfig [1, 2, 3, 4, 5, 6, 7, 0, 9, 0x55] init_sys))) = 1798"
  using unpack_any_payload [of "[1, 2, 3, 4, 5, 6, 7, 0, 9, 0x55]" init_sys]
  by simp

section \<open>The clock\<close>

lemma unat_next_second:
  assumes "unat (w :: u32) < 86400"
  shows "unat ((w + 1) mod 86400) = (unat w + 1) mod 86400"
proof -
  have "unat (w + 1) = unat w + 1"
    using assms by (simp add: unat_word_ariths)
  then show ?thesis
    by (simp add: unat_mod)
qed

lemma lt10_nat: "(w < (10 :: u32)) = (unat w < 10)"
  by (simp add: word_less_nat_alt)

text \<open>
  C7: when the one-second ticker fires, \<open>secondsToday\<close> becomes its successor modulo
  86400 (for a counter in its range \<open>[0, 86400)\<close>, where it stays), and \<open>wateredToday\<close>
  is false afterwards whenever the new value is below 10, whatever it was before;
  otherwise it keeps its value.
\<close>

theorem clock_tick:
  assumes "millis s - lastSecond s \<ge> 1000" and "unat (secondsToday s) < 86400"
  shows "unat (secondsToday (one_second_ticker s)) = (unat (secondsToday s) + 1) mod 86400
       \<and> unat (secondsToday (one_second_ticker s)) < 86400
       \<and> wateredToday (one_second_ticker s) =
           (if unat (secondsToday (one_second_ticker s)) < 10 then False else wateredToday s)"
  using assms by (simp add: one_second_ticker_def Let_def lt10_nat unat_next_second)

theorem clock_tick_witness:
  "millis tick_state - lastSecond tick_state \<ge> 1000 \<and> unat (secondsToday tick_state) < 86400
   \<and> unat (secondsToday (one_second_ticker tick_state)) = 0
   \<and> \<not> wateredToday (one_second_ticker tick_state)"
  using clock_tick [of tick_state] by (simp add: tick_state_def init_sys_def)

section \<open>Runs started by the loop\<close>

lemma pump_on_calls_soil_eval:
  "pump_on_calls (trace (soil_eval soil s)) = pump_on_calls (trace s) +
     (if \<not> scheduleOn (cfg s) \<and> threshold (cfg s) < soil \<and> \<not> pumpRunning s then 1 else 0)"
  by (simp add: soil_eval_def emit_def Let_def watering_begin_eq auto_watering_end_eq pump_on_calls_def)

lemma pump_on_calls_schedule_block:
  "pump_on_calls (trace (schedule_block s)) = pump_on_calls (trace s) +
     (if scheduleOn (cfg s) \<and> \<not> wateredToday s \<and>
         ucast (startHour (cfg s)) * 3600 + ucast (startMin (cfg s)) * 60 \<le> secondsToday s \<and>
         secondsToday s < ucast (startHour (cfg s)) * 3600 + ucast (startMin (cfg s)) * 60 + 20
      then 1 else 0)"
  by (simp add: schedule_block_def Let_def watering_begin_eq scheduled_watering_end_eq pump_on_calls_def)

lemma ticker_frame:
  "cfg (one_second_ticker s) = cfg s"
  "trace (one_second_ticker s) = trace s"
  "pumpRunning (one_second_ticker s) = pumpRunning s"
  by (simp_all add: one_second_ticker_def Let_def)

lemma soil_block_scheduled:
  assumes "scheduleOn (cfg s)"
  shows "cfg (soil_block a s) = cfg s"
    and "wateredToday (soil_block a s) = wateredToday s"
    and "secondsToday (soil_block a s) = secondsToday s"
    and "pump_on_calls (trace (soil_block a s)) = pump_on_calls (trace s)"
  using assms by (simp_all add: soil_block_def soil_eval_idle_eq pump_on_calls_def)

lemma level_block_frame:
  "cfg (level_block a s) = cfg s"
  "wateredToday (level_block a s) = wateredToday s"
  "secondsToday (level_block a s) = secondsToday s"
  "pumpRunning (level_block a s) = pumpRunning s"
  "pump_on_calls (trace (level_block a s)) = pump_on_calls (trace s)"
  by (simp_all add: level_block_def emit_def Let_def pump_on_calls_def)

lemma schedule_block_watered:
  assumes "wateredToday s"
  shows "schedule_block s = s"
  using assms by (simp add: schedule_block_def Let_def)

lemma delay_frame:
  "cfg (delay ms s) = cfg s"
  "wateredToday (delay ms s) = wateredToday s"
  "secondsToday (delay ms s) = secondsToday s"
  "pumpRunning (delay ms s) = pumpRunning s"
  "pump_on_calls (trace (delay ms s)) = pump_on_calls (trace s)"
  by (simp_all add: delay_eq pump_on_calls_def)

lemma soil_eval_cfg: "cfg (soil_eval soil s) = cfg s"
  by (simp add: soil_eval_def emit_def Let_def watering_begin_eq auto_watering_end_eq)

lemma soil_block_cfg: "cfg (soil_block a s) = cfg s"
  by (simp add: soil_block_def soil_eval_cfg)

lemma pump_on_calls_soil_block:
  "pump_on_calls (trace (soil_block a s)) \<le> pump_on_calls (trace s) + 1"
  by (simp add: soil_block_def pump_on_calls_soil_eval)

lemma schedule_block_off:
  assumes "\<not> scheduleOn (cfg s)"
  shows "schedule_block s = s"
  using assms by (simp add: schedule_block_def)

lemma soil_eval_fire_eq:
  assumes "\<not> scheduleOn (cfg s)" and "threshold (cfg s) < soil" and "\<not> pumpRunning s"
  shows "soil_eval soil s =
     auto_watering_end (delay (ucast (durationSec (cfg s)) * 1000)
       (setPump True (s\<lparr>lastSoilTime := millis s,
          trace := trace s @ [Notify CHR_SOIL (Bytes [ucast soil, ucast (drop_bit 8 soil)])]\<rparr>)))"
  using assms by (simp add: soil_eval_def emit_def Let_def watering_begin_def setPump_eq)

lemma relay_writes_setPump:
  "relay_writes (trace (setPump on s)) = relay_writes (trace s) + 1"
  by (simp add: setPump_eq relay_writes_def)

text \<open>
  C3: a soil reading evaluated with the schedule off and the pump idle takes the pump to
  Running exactly when the reading is strictly above the threshold. Then the evaluation
  calls \<open>setPump(true)\<close>: \<open>pumpRunning\<close> is true, the relay is written to its on level
  and the state \<open>[1, flowPct]\<close> is notified; the run is held by \<open>delay(durationSec * 1000)\<close>
  and ended by \<open>setPump(false)\<close>, so when the evaluation returns the relay has been
  written twice and the pump is idle again. In every other case (reading not above the
  threshold, schedule on, or pump running) the evaluation only publishes the reading and
  stamps \<open>lastSoilTime\<close>: no relay write, \<open>pumpRunning\<close> as before. So with the
  schedule on the threshold check starts nothing, and with the schedule off the schedule
  block does nothing at all; in one pass of \<open>loop()\<close> the soil block or the schedule
  block starts nothing, and the pass starts at most one run.
\<close>

theorem threshold_trigger:
  "(\<not> scheduleOn (cfg s) \<and> \<not> pumpRunning s \<and> threshold (cfg s) < soil \<longrightarrow>
      (let s2 = s\<lparr>lastSoilTime := millis s,
                  trace := trace s @ [Notify CHR_SOIL (Bytes [ucast soil, ucast (drop_bit 8 soil)])]\<rparr>;
           s3 = setPump True s2
       in pumpRunning s3
          \<and> trace s3 = trace s2 @
               [DigitalWrite RELAY_PIN (\<not> relayActiveLow (cfg s)),
                Notify CHR_STATE (Bytes [1, flowPct (cfg s)]),
                SerialPrintln ''Pump ON''] @
               (if clientConnected s then [Notify CHR_LOG (Text ''Pump ON'')] else [])
          \<and> soil_eval soil s = auto_watering_end (delay (ucast (durationSec (cfg s)) * 1000) s3)
          \<and> trace (soil_eval soil s) = trace s3 @
               [Delay (ucast (durationSec (cfg s)) * 1000),
                DigitalWrite RELAY_PIN (relayActiveLow (cfg s)),
                Notify CHR_STATE (Bytes [0, flowPct (cfg s)]),
                SerialPrintln ''Pump OFF''] @
               (if clientConnected s then [Notify CHR_LOG (Text ''Pump OFF'')] else []) @
               SerialPrintln ''Auto watering completed'' #
               (if clientConnected s then [Notify CHR_LOG (Text ''Auto watering completed'')] else [])
          \<and> \<not> pumpRunning (soil_eval soil s)
          \<and> relay_writes (trace (soil_eval soil s)) = relay_writes (trace s) + 2))
   \<and> (scheduleOn (cfg s) \<or> pumpRunning s \<or> \<not> threshold (cfg s) < soil \<longrightarrow>
        soil_eval soil s = s\<lparr>lastSoilTime := millis s,
          trace := trace s @ [Notify CHR_SOIL (Bytes [ucast soil, ucast (drop_bit 8 soil)])]\<rparr>
        \<and> pumpRunning (soil_eval soil s) = pumpRunning s
        \<and> relay_writes (trace (soil_eval soil s)) = relay_writes (trace s))
   \<and> (\<not> scheduleOn (cfg s) \<and> \<not> pumpRunning s \<longrightarrow>
      pump_on_calls (trace (soil_eval soil s)) =
        pump_on_calls (trace s) + (if threshold (cfg s) < soil then 1 else 0))
   \<and> (scheduleOn (cfg s) \<longrightarrow>
        pump_on_calls (trace (soil_eval soil s)) = pump_on_calls (trace s))
   \<and> (\<not> scheduleOn (cfg s) \<longrightarrow> schedule_block s = s)
   \<and> (let s1 = one_second_ticker s; s2 = soil_block a s1; s3 = level_block a s2
       in pump_on_calls (trace s2) = pump_on_calls (trace s1)
          \<or> pump_on_calls (trace (schedule_block s3)) = pump_on_calls (trace s3))
   \<and> pump_on_calls (trace (loop a s)) \<le> pump_on_calls (trace s) + 1"
proof -
  let ?s1 = "one_second_ticker s"
  let ?s2 = "soil_block a ?s1"
  let ?s3 = "level_block a ?s2"
  let ?n = "s\<lparr>lastSoilTime := millis s,
      trace := trace s @ [Notify CHR_SOIL (Bytes [ucast soil, ucast (drop_bit 8 soil)])]\<rparr>"
  have fire: "\<not> scheduleOn (cfg s) \<and> \<not> pumpRunning s \<and> threshold (cfg s) < soil \<longrightarrow>
      (let s2 = ?n; s3 = setPump True s2
       in pumpRunning s3
          \<and> trace s3 = trace s2 @
               [DigitalWrite RELAY_PIN (\<not> relayActiveLow (cfg s)),
                Notify CHR_STATE (Bytes [1, flowPct (cfg s)]),
                SerialPrintln ''Pump ON''] @
               (if clientConnected s then [Notify CHR_LOG (Text ''Pump ON'')] else [])
          \<and> soil_eval soil s = auto_watering_end (delay (ucast (durationSec (cfg s)) * 1000) s3)
          \<and> trace (soil_eval soil s) = trace s3 @
               [Delay (ucast (durationSec (cfg s)) * 1000),
                DigitalWrite RELAY_PIN (relayActiveLow (cfg s)),
                Notify CHR_STATE (Bytes [0, flowPct (cfg s)]),
                SerialPrintln ''Pump OFF''] @
               (if clientConnected s then [Notify CHR_LOG (Text ''Pump OFF'')] else []) @
               SerialPrintln ''Auto watering completed'' #
               (if clientConnected s then [Notify CHR_LOG (Text ''Auto watering completed'')] else [])
          \<and> \<not> pumpRunning (soil_eval soil s)
          \<and> relay_writes (trace (soil_eval soil s)) = relay_writes (trace s) + 2)"
  proof
    assume h: "\<not> scheduleOn (cfg s) \<and> \<not> pumpRunning s \<and> threshold (cfg s) < soil"
    then have eq: "soil_eval soil s =
        auto_watering_end (delay (ucast (durationSec (cfg s)) * 1000) (setPump True ?n))"
      by (simp add: soil_eval_fire_eq)
    show "let s2 = ?n; s3 = setPump True s2
       in pumpRunning s3
          \<and> trace s3 = trace s2 @
               [DigitalWrite RELAY_PIN (\<not> relayActiveLow (cfg s)),
                Notify CHR_STATE (Bytes [1, flowPct (cfg s)]),
                SerialPrintln ''Pump ON''] @
               (if clientConnected s then [Notify CHR_LOG (Text ''Pump ON'')] else [])
          \<and> soil_eval soil s = auto_watering_end (delay (ucast (durationSec (cfg s)) * 1000) s3)
          \<and> trace (soil_eval soil s) = trace s3 @
               [Delay (ucast (durationSec (cfg s)) * 1000),
                DigitalWrite RELAY_PIN (relayActiveLow (cfg s)),
                Notify CHR_STATE (Bytes [0, flowPct (cfg s)]),
                SerialPrintln ''Pump OFF''] @
               (if clientConnected s then [Notify CHR_LOG (Text ''Pump OFF'')] else []) @
               SerialPrintln ''Auto watering completed'' #
               (if clientConnected s then [Notify CHR_LOG (Text ''Auto watering completed'')] else [])
          \<and> \<not> pumpRunning (soil_eval soil s)
          \<and> relay_writes (trace (soil_eval soil s)) = relay_writes (trace s) + 2"
      unfolding Let_def eq
      by (simp add: setPump_eq delay_eq auto_watering_end_eq relay_writes_def)
  qed
  have idle: "scheduleOn (cfg s) \<or> pumpRunning s \<or> \<not> threshold (cfg s) < soil \<longrightarrow>
        soil_eval soil s = ?n
        \<and> pumpRunning (soil_eval soil s) = pumpRunning s
        \<and> relay_writes (trace (soil_eval soil s)) = relay_writes (trace s)"
  proof
    assume "scheduleOn (cfg s) \<or> pumpRunning s \<or> \<not> threshold (cfg s) < soil"
    then have "soil_eval soil s = ?n"
      by (intro soil_eval_idle_eq) blast
    then show "soil_eval soil s = ?n
        \<and> pumpRunning (soil_eval soil s) = pumpRunning s
        \<and> relay_writes (trace (soil_eval soil s)) = relay_writes (trace s)"
      by (simp add: relay_writes_def)
  qed
  have c3: "cfg ?s3 = cfg s"
    by (simp add: level_block_frame soil_block_cfg ticker_frame)
  have excl: "pump_on_calls (trace ?s2) = pump_on_calls (trace ?s1)
      \<or> pump_on_calls (trace (schedule_block ?s3)) = pump_on_calls (trace ?s3)"
  proof (cases "scheduleOn (cfg s)")
    case True
    then have "scheduleOn (cfg ?s1)" by (simp add: ticker_frame)
    then show ?thesis by (simp add: soil_block_scheduled)
  next
    case False
    then have "\<not> scheduleOn (cfg ?s3)" by (simp add: c3)
    then show ?thesis by (simp add: schedule_block_off)
  qed
  have sched: "pump_on_calls (trace (schedule_block ?s3)) \<le> pump_on_calls (trace ?s3) + 1"
    by (simp add: pump_on_calls_schedule_block)
  have soil: "pump_on_calls (trace ?s2) \<le> pump_on_calls (trace ?s1) + 1"
    by (rule pump_on_calls_soil_block)
  have "pump_on_calls (trace (schedule_block ?s3)) \<le> pump_on_calls (trace ?s1) + 1"
    using excl sched soil by (auto simp add: level_block_frame)
  then have bound: "pump_on_calls (trace (loop a s)) \<le> pump_on_calls (trace s) + 1"
    by (simp add: loop_def delay_frame ticker_frame)
  have rest: "(\<not> scheduleOn (cfg s) \<and> \<not> pumpRunning s \<longrightarrow>
      pump_on_calls (trace (soil_eval soil s)) =
        pump_on_calls (trace s) + (if threshold (cfg s) < soil then 1 else 0))
   \<and> (scheduleOn (cfg s) \<longrightarrow>
        pump_on_calls (trace (soil_eval soil s)) = pump_on_calls (trace s))
   \<and> (\<not> scheduleOn (cfg s) \<longrightarrow> schedule_block s = s)
   \<and> (let s1 = one_second_ticker s; s2 = soil_block a s1; s3 = level_block a s2
       in pump_on_calls (trace s2) = pump_on_calls (trace s1)
          \<or> pump_on_calls (trace (schedule_block s3)) = pump_on_calls (trace s3))
   \<and> pump_on_calls (trace (loop a s)) \<le> pump_on_calls (trace s) + 1"
    using excl bound
    by (simp add: pump_on_calls_soil_eval schedule_block_off Let_def)
  show ?thesis
    by (rule conjI [OF fire conjI [OF idle rest]])
qed

theorem threshold_trigger_witness:
  "\<not> scheduleOn (cfg init_sys) \<and> \<not> pumpRunning init_sys \<and> threshold (cfg init_sys) < 2500
   \<and> pumpRunning (setPump True (init_sys\<lparr>lastSoilTime := millis init_sys,
         trace := trace init_sys @ [Notify CHR_SOIL (Bytes [ucast (2500 :: u16), ucast (drop_bit 8 (2500 :: u16))])]\<rparr>))
   \<and> trace (soil_eval 2500 init_sys) =
        [Notify CHR_SOIL (Bytes [0xC4, 0x09]),
         DigitalWrite 26 False, Notify CHR_STATE (Bytes [1, 100]), SerialPrintln ''Pump ON'',
         Delay 30000,
         DigitalWrite 26 True, Notify CHR_STATE (Bytes [0, 100]), SerialPrintln ''Pump OFF'',
         SerialPrintln ''Auto watering completed'']
   \<and> \<not> pumpRunning (soil_eval 2500 init_sys)
   \<and> relay_writes (trace (soil_eval 2500 init_sys)) = 2
   \<and> \<not> threshold (cfg init_sys) < 2200
   \<and> soil_eval 2200 init_sys = init_sys\<lparr>trace := [Notify CHR_SOIL (Bytes [0x98, 0x08])]\<rparr>
   \<and> pump_on_calls (trace (soil_eval 1000 init_sys)) = 0
   \<and> pump_on_calls (trace (soil_eval 2200 init_sys)) = 0
   \<and> pump_on_calls (trace (soil_eval 2500 init_sys)) = 1
   \<and> scheduleOn (cfg sched_state)
   \<and> soil_eval 2500 sched_state = sched_state\<lparr>trace := [Notify CHR_SOIL (Bytes [0xC4, 0x09])]\<rparr>
   \<and> pump_on_calls (trace (soil_eval 2500 sched_state)) = 0
   \<and> schedule_block init_sys = init_sys"
proof -
  have idle: "\<not> scheduleOn (cfg init_sys)" "\<not> pumpRunning init_sys"
    and init: "threshold (cfg init_sys) = 2200" "pump_on_calls (trace init_sys) = 0"
      "relay_writes (trace init_sys) = 0" "trace init_sys = []" "millis init_sys = 0"
      "lastSoilTime init_sys = 0" "\<not> clientConnected init_sys"
      "flowPct (cfg init_sys) = 100" "durationSec (cfg init_sys) = 30"
      "relayActiveLow (cfg init_sys)"
    and sched: "scheduleOn (cfg sched_state)" "pump_on_calls (trace sched_state) = 0"
      "trace sched_state = []" "millis sched_state = 0" "lastSoilTime sched_state = 0"
    by (simp_all add: sched_state_def init_sys_def default_cfg_def pump_on_calls_def
        relay_writes_def)
  have up: "init_sys\<lparr>lastSoilTime := 0, trace := tr\<rparr> = init_sys\<lparr>trace := tr\<rparr>"
    "sched_state\<lparr>lastSoilTime := 0, trace := tr\<rparr> = sched_state\<lparr>trace := tr\<rparr>" for tr
    by (simp_all add: sched_state_def init_sys_def)
  let ?s3 = "setPump True (init_sys\<lparr>lastSoilTime := millis init_sys,
         trace := trace init_sys @ [Notify CHR_SOIL (Bytes [ucast (2500 :: u16), ucast (drop_bit 8 (2500 :: u16))])]\<rparr>)"
  have dry: "threshold (cfg init_sys) < 2500"
    by (simp add: init)
  have raw: "pumpRunning ?s3"
    "trace ?s3 = trace (init_sys\<lparr>lastSoilTime := millis init_sys,
         trace := trace init_sys @ [Notify CHR_SOIL (Bytes [ucast (2500 :: u16), ucast (drop_bit 8 (2500 :: u16))])]\<rparr>) @
               [DigitalWrite RELAY_PIN (\<not> relayActiveLow (cfg init_sys)),
                Notify CHR_STATE (Bytes [1, flowPct (cfg init_sys)]),
                SerialPrintln ''Pump ON''] @
               (if clientConnected init_sys then [Notify CHR_LOG (Text ''Pump ON'')] else [])"
    "trace (soil_eval 2500 init_sys) = trace ?s3 @
               [Delay (ucast (durationSec (cfg init_sys)) * 1000),
                DigitalWrite RELAY_PIN (relayActiveLow (cfg init_sys)),
                Notify CHR_STATE (Bytes [0, flowPct (cfg init_sys)]),
                SerialPrintln ''Pump OFF''] @
               (if clientConnected init_sys then [Notify CHR_LOG (Text ''Pump OFF'')] else []) @
               SerialPrintln ''Auto watering completed'' #
               (if clientConnected init_sys then [Notify CHR_LOG (Text ''Auto watering completed'')] else [])"
    "\<not> pumpRunning (soil_eval 2500 init_sys)"
    "relay_writes (trace (soil_eval 2500 init_sys)) = relay_writes (trace init_sys) + 2"
    using threshold_trigger [of init_sys 2500 "const_adc 0", THEN conjunct1] idle dry
    unfolding Let_def by blast+
  have tr: "trace (soil_eval 2500 init_sys) =
        [Notify CHR_SOIL (Bytes [0xC4, 0x09]),
         DigitalWrite 26 False, Notify CHR_STATE (Bytes [1, 100]), SerialPrintln ''Pump ON'',
         Delay 30000,
         DigitalWrite 26 True, Notify CHR_STATE (Bytes [0, 100]), SerialPrintln ''Pump OFF'',
         SerialPrintln ''Auto watering completed'']"
    unfolding raw(3) raw(2) by (simp add: init RELAY_PIN_def)
  have rw: "relay_writes (trace (soil_eval 2500 init_sys)) = 2"
    using raw(5) init(3) by simp
  have wet: "\<not> threshold (cfg init_sys) < 2200"
    by (simp add: init)
  have "soil_eval 2200 init_sys = init_sys\<lparr>lastSoilTime := millis init_sys,
          trace := trace init_sys @ [Notify CHR_SOIL (Bytes [ucast (2200 :: u16), ucast (drop_bit 8 (2200 :: u16))])]\<rparr>"
    using threshold_trigger [of init_sys 2200 "const_adc 0", THEN conjunct2, THEN conjunct1] wet
    by blast
  then have stay: "soil_eval 2200 init_sys = init_sys\<lparr>trace := [Notify CHR_SOIL (Bytes [0x98, 0x08])]\<rparr>"
    by (simp add: init up)
  have "soil_eval 2500 sched_state = sched_state\<lparr>lastSoilTime := millis sched_state,
          trace := trace sched_state @ [Notify CHR_SOIL (Bytes [ucast (2500 :: u16), ucast (drop_bit 8 (2500 :: u16))])]\<rparr>"
    using threshold_trigger [of sched_state 2500 "const_adc 0", THEN conjunct2, THEN conjunct1]
      sched(1) by blast
  then have off: "soil_eval 2500 sched_state = sched_state\<lparr>trace := [Notify CHR_SOIL (Bytes [0xC4, 0x09])]\<rparr>"
    by (simp add: sched up)
  have cnt: "pump_on_calls (trace (soil_eval soil init_sys)) = (if 2200 < soil then 1 else 0)"
    for soil
    using threshold_trigger [of init_sys soil "const_adc 0", THEN conjunct2, THEN conjunct2,
        THEN conjunct1] idle init by simp
  have none: "schedule_block init_sys = init_sys"
    using threshold_trigger [of init_sys 0 "const_adc 0", THEN conjunct2, THEN conjunct2,
        THEN conjunct2, THEN conjunct2, THEN conjunct1] idle by simp
  have off_cnt: "pump_on_calls (trace (soil_eval 2500 sched_state)) = 0"
    by (simp add: off pump_on_calls_def)
  have c1: "pump_on_calls (trace (soil_eval 1000 init_sys)) = 0"
    and c2: "pump_on_calls (trace (soil_eval 2200 init_sys)) = 0"
    and c3: "pump_on_calls (trace (soil_eval 2500 init_sys)) = 1"
    by (simp_all add: cnt)
  show ?thesis
    by (intro conjI) (fact idle dry raw(1) tr raw(4) rw wet stay c1 c2 c3 sched(1) off off_cnt none)+
qed

section \<open>The daily schedule\<close>

lemma ticker_step:
  assumes "1000 \<le> millis s - lastSecond s \<longrightarrow> unat (secondsToday s) + 1 < 86400"
    and "10 \<le> unat (secondsToday s)"
  shows "unat (secondsToday (one_second_ticker s)) =
           unat (secondsToday s) + (if 1000 \<le> millis s - lastSecond s then 1 else 0)
       \<and> wateredToday (one_second_ticker s) = wateredToday s"
proof (cases "1000 \<le> millis s - lastSecond s")
  case True
  with assms(1) have "unat (secondsToday s) < 86400" by simp
  then have "unat ((secondsToday s + 1) mod 86400) = (unat (secondsToday s) + 1) mod 86400"
    by (rule unat_next_second)
  with True assms(1) have nx: "unat ((secondsToday s + 1) mod 86400) = unat (secondsToday s) + 1"
    by simp
  show ?thesis
    using True assms(2) by (simp add: one_second_ticker_def Let_def lt10_nat nx)
next
  case False
  then show ?thesis
    by (simp add: one_second_ticker_def)
qed

lemma soil_block_scheduled_more:
  assumes "scheduleOn (cfg s)"
  shows "pumpRunning (soil_block a s) = pumpRunning s"
    and "relay_writes (trace (soil_block a s)) = relay_writes (trace s)"
  using assms by (simp_all add: soil_block_def soil_eval_idle_eq relay_writes_def)

lemma level_block_relay:
  "relay_writes (trace (level_block a s)) = relay_writes (trace s)"
  by (simp add: level_block_def emit_def Let_def relay_writes_def)

lemma delay_relay: "relay_writes (trace (delay ms s)) = relay_writes (trace s)"
  by (simp add: delay_eq relay_writes_def)

lemma loop_watered:
  assumes "scheduleOn (cfg s)" and "wateredToday s" and "10 \<le> unat (secondsToday s)"
    and "1000 \<le> millis s - lastSecond s \<longrightarrow> unat (secondsToday s) + 1 < 86400"
  shows "cfg (loop a s) = cfg s"
    and "wateredToday (loop a s)"
    and "unat (secondsToday (loop a s)) =
           unat (secondsToday s) + (if 1000 \<le> millis s - lastSecond s then 1 else 0)"
    and "pump_on_calls (trace (loop a s)) = pump_on_calls (trace s)"
    and "relay_writes (trace (loop a s)) = relay_writes (trace s)"
    and "pumpRunning (loop a s) = pumpRunning s"
proof -
  let ?t = "one_second_ticker s"
  note tk = ticker_step [OF assms(4,3)]
  have t: "scheduleOn (cfg ?t)" "wateredToday ?t"
    using assms(1,2) tk by (simp_all add: ticker_frame)
  let ?l = "level_block a (soil_block a ?t)"
  have l: "wateredToday ?l" "cfg ?l = cfg s" "secondsToday ?l = secondsToday ?t"
    "pump_on_calls (trace ?l) = pump_on_calls (trace s)"
    "relay_writes (trace ?l) = relay_writes (trace s)"
    "pumpRunning ?l = pumpRunning s"
    using t by (simp_all add: level_block_frame level_block_relay soil_block_scheduled
        soil_block_scheduled_more ticker_frame)
  have eq: "loop a s = delay 50 ?l"
    using l(1) by (simp add: loop_def schedule_block_watered)
  show "cfg (loop a s) = cfg s" "wateredToday (loop a s)"
    "pump_on_calls (trace (loop a s)) = pump_on_calls (trace s)"
    "relay_writes (trace (loop a s)) = relay_writes (trace s)"
    "pumpRunning (loop a s) = pumpRunning s"
    using l by (simp_all add: eq delay_frame delay_relay)
  show "unat (secondsToday (loop a s)) =
      unat (secondsToday s) + (if 1000 \<le> millis s - lastSecond s then 1 else 0)"
    using l(3) tk by (simp add: eq delay_frame)
qed

lemma loops_watered:
  assumes "scheduleOn (cfg s)" and "wateredToday s" and "10 \<le> unat (secondsToday s)"
    and "unat (secondsToday s) + ticks a dts s < 86400"
  shows "pump_on_calls (trace (loops a dts s)) = pump_on_calls (trace s)
       \<and> relay_writes (trace (loops a dts s)) = relay_writes (trace s)
       \<and> pumpRunning (loops a dts s) = pumpRunning s
       \<and> wateredToday (loops a dts s)"
  using assms
proof (induction dts arbitrary: s)
  case Nil
  then show ?case by simp
next
  case (Cons dt dts)
  let ?s = "s\<lparr>millis := millis s + dt\<rparr>"
  have pre: "scheduleOn (cfg ?s)" "wateredToday ?s" "10 \<le> unat (secondsToday ?s)"
    "1000 \<le> millis ?s - lastSecond ?s \<longrightarrow> unat (secondsToday ?s) + 1 < 86400"
    using Cons.prems by (simp_all split: if_splits)
  note step = loop_watered [OF pre, of a]
  have "pump_on_calls (trace (loops a dts (loop a ?s))) = pump_on_calls (trace (loop a ?s))
       \<and> relay_writes (trace (loops a dts (loop a ?s))) = relay_writes (trace (loop a ?s))
       \<and> pumpRunning (loops a dts (loop a ?s)) = pumpRunning (loop a ?s)
       \<and> wateredToday (loops a dts (loop a ?s))"
  proof (rule Cons.IH)
    show "scheduleOn (cfg (loop a ?s))" using step(1) Cons.prems(1) by simp
    show "wateredToday (loop a ?s)" by (rule step(2))
    show "10 \<le> unat (secondsToday (loop a ?s))" using step(3) Cons.prems(3) by simp
    show "unat (secondsToday (loop a ?s)) + ticks a dts (loop a ?s) < 86400"
      using step(3) Cons.prems(4) by simp
  qed
  then show ?case using step(4,5,6) by simp
qed

lemma ticks_le_length: "ticks a dts s \<le> length dts"
  by (induction dts arbitrary: s) (auto simp add: le_SucI)

lemma ticker_not_watered:
  assumes "\<not> wateredToday s"
  shows "\<not> wateredToday (one_second_ticker s)"
  using assms by (simp add: one_second_ticker_def Let_def)

lemma window_7am:
  assumes "startHour c = 7" and "startMin c = 0"
  shows "(ucast (startHour c) * 3600 + ucast (startMin c) * 60 :: u32) = 25200"
  using assms by simp

lemma in_window_nat:
  "((25200 :: u32) \<le> w \<and> w < 25200 + 20) = (25200 \<le> unat w \<and> unat w < 25220)"
  by (simp add: word_le_nat_alt word_less_nat_alt)

lemma schedule_fires_once:
  assumes "scheduleOn (cfg s)" and "startHour (cfg s) = 7" and "startMin (cfg s) = 0"
    and "\<not> wateredToday s"
    and "25200 \<le> unat (secondsToday s)" and "unat (secondsToday s) < 25220"
  shows "schedule_block s =
           scheduled_watering_end (delay (ucast (durationSec (cfg s)) * 1000) (setPump True s))"
    and "scheduleOn (cfg (schedule_block s))"
    and "wateredToday (schedule_block s)"
    and "secondsToday (schedule_block s) = secondsToday s"
    and "\<not> pumpRunning (schedule_block s)"
    and "pump_on_calls (trace (schedule_block s)) = pump_on_calls (trace s) + 1"
    and "relay_writes (trace (schedule_block s)) = relay_writes (trace s) + 2"
proof -
  have w: "25200 \<le> secondsToday s \<and> secondsToday s < 25200 + 20"
    using assms(5,6) by (simp only: in_window_nat)
  show fire: "schedule_block s =
      scheduled_watering_end (delay (ucast (durationSec (cfg s)) * 1000) (setPump True s))"
    using assms(1,4) w
    by (simp add: schedule_block_def Let_def window_7am [OF assms(2,3)] watering_begin_def
        setPump_eq)
  show "scheduleOn (cfg (schedule_block s))" "wateredToday (schedule_block s)"
    "secondsToday (schedule_block s) = secondsToday s"
    "\<not> pumpRunning (schedule_block s)"
    "pump_on_calls (trace (schedule_block s)) = pump_on_calls (trace s) + 1"
    "relay_writes (trace (schedule_block s)) = relay_writes (trace s) + 2"
    using assms(1)
    by (simp_all add: fire setPump_eq delay_eq scheduled_watering_end_eq pump_on_calls_def
        relay_writes_def)
qed

lemma schedule_then_idle:
  assumes "scheduleOn (cfg s)" and "startHour (cfg s) = 7" and "startMin (cfg s) = 0"
    and "\<not> wateredToday s"
    and "25200 \<le> unat (secondsToday s)" and "unat (secondsToday s) < 25220"
    and "unat (secondsToday s) + ticks a dts (delay 50 (schedule_block s)) < 86400"
  shows "pump_on_calls (trace (loops a dts (delay 50 (schedule_block s)))) = pump_on_calls (trace s) + 1
       \<and> relay_writes (trace (loops a dts (delay 50 (schedule_block s)))) = relay_writes (trace s) + 2
       \<and> \<not> pumpRunning (loops a dts (delay 50 (schedule_block s)))
       \<and> wateredToday (loops a dts (delay 50 (schedule_block s)))"
proof -
  note f = schedule_fires_once [OF assms(1-6)]
  let ?r = "delay 50 (schedule_block s)"
  have r: "scheduleOn (cfg ?r)" "wateredToday ?r" "10 \<le> unat (secondsToday ?r)"
    "unat (secondsToday ?r) + ticks a dts ?r < 86400"
    using f(2,3,4) assms(5,7) by (simp_all add: delay_frame)
  from loops_watered [OF r]
  show ?thesis
    using f(5,6,7) by (simp add: delay_frame delay_relay)
qed

lemma pass_reaches_schedule:
  assumes "scheduleOn (cfg s0)" and "\<not> wateredToday s0" and "\<not> pumpRunning s0"
  shows "loop a s0 = delay 50 (schedule_block (level_block a (soil_block a (one_second_ticker s0))))"
    and "cfg (level_block a (soil_block a (one_second_ticker s0))) = cfg s0"
    and "\<not> wateredToday (level_block a (soil_block a (one_second_ticker s0)))"
    and "secondsToday (level_block a (soil_block a (one_second_ticker s0)))
           = secondsToday (one_second_ticker s0)"
    and "pump_on_calls (trace (level_block a (soil_block a (one_second_ticker s0))))
           = pump_on_calls (trace s0)"
    and "relay_writes (trace (level_block a (soil_block a (one_second_ticker s0))))
           = relay_writes (trace s0)"
proof -
  have t: "scheduleOn (cfg (one_second_ticker s0))"
    using assms(1) by (simp add: ticker_frame)
  show "loop a s0 = delay 50 (schedule_block (level_block a (soil_block a (one_second_ticker s0))))"
    by (simp add: loop_def)
  show "cfg (level_block a (soil_block a (one_second_ticker s0))) = cfg s0"
    "\<not> wateredToday (level_block a (soil_block a (one_second_ticker s0)))"
    "secondsToday (level_block a (soil_block a (one_second_ticker s0)))
           = secondsToday (one_second_ticker s0)"
    "pump_on_calls (trace (level_block a (soil_block a (one_second_ticker s0))))
           = pump_on_calls (trace s0)"
    "relay_writes (trace (level_block a (soil_block a (one_second_ticker s0))))
           = relay_writes (trace s0)"
    using t assms(2)
    by (simp_all add: level_block_frame level_block_relay soil_block_scheduled
        soil_block_scheduled_more ticker_frame ticker_not_watered)
qed

text \<open>
  C6: with the schedule on and the start time 07:00, when the schedule block is
  evaluated with \<open>secondsToday\<close> in the window \<open>[25200, 25220)\<close>, the pump idle and
  \<open>wateredToday\<close> false, it starts exactly one run: \<open>setPump(true)\<close> sets \<open>pumpRunning\<close>,
  writes the relay to its on level and notifies \<open>[1, flowPct]\<close>; the run is held by
  \<open>delay(durationSec * 1000)\<close> and ended by \<open>setPump(false)\<close>, and \<open>wateredToday\<close> is
  set. Every further pass of \<open>loop()\<close> on the same day (any passes \<open>dts\<close> whose clock
  ticks do not carry \<open>secondsToday\<close> past midnight, so also the passes that find it
  still inside the window) starts no run, writes the relay not at all and leaves the pump
  idle: one run, two relay writes in total. The same holds of whole passes: a pass of
  \<open>loop()\<close> from a state \<open>s0\<close> whose clock tick lands in the window starts that one run,
  and the passes after it none.
\<close>

theorem scheduled_once_per_day:
  assumes "scheduleOn (cfg s)" and "startHour (cfg s) = 7" and "startMin (cfg s) = 0"
    and "\<not> pumpRunning s" and "\<not> wateredToday s"
    and "25200 \<le> unat (secondsToday s)" and "unat (secondsToday s) < 25220"
    and "unat (secondsToday s) + ticks a dts (delay 50 (schedule_block s)) < 86400"
  shows "pumpRunning (setPump True s)
       \<and> trace (setPump True s) = trace s @
            [DigitalWrite RELAY_PIN (\<not> relayActiveLow (cfg s)),
             Notify CHR_STATE (Bytes [1, flowPct (cfg s)]),
             SerialPrintln ''Pump ON''] @
            (if clientConnected s then [Notify CHR_LOG (Text ''Pump ON'')] else [])
       \<and> schedule_block s =
            scheduled_watering_end (delay (ucast (durationSec (cfg s)) * 1000) (setPump True s))
       \<and> trace (schedule_block s) = trace (setPump True s) @
            [Delay (ucast (durationSec (cfg s)) * 1000),
             DigitalWrite RELAY_PIN (relayActiveLow (cfg s)),
             Notify CHR_STATE (Bytes [0, flowPct (cfg s)]),
             SerialPrintln ''Pump OFF''] @
            (if clientConnected s then [Notify CHR_LOG (Text ''Pump OFF'')] else []) @
            SerialPrintln ''Scheduled watering done'' #
            (if clientConnected s then [Notify CHR_LOG (Text ''Scheduled watering done'')] else [])
       \<and> \<not> pumpRunning (schedule_block s)
       \<and> wateredToday (schedule_block s)
       \<and> pump_on_calls (trace (schedule_block s)) = pump_on_calls (trace s) + 1
       \<and> relay_writes (trace (schedule_block s)) = relay_writes (trace s) + 2
       \<and> pump_on_calls (trace (loops a dts (delay 50 (schedule_block s)))) = pump_on_calls (trace s) + 1
       \<and> relay_writes (trace (loops a dts (delay 50 (schedule_block s)))) = relay_writes (trace s) + 2
       \<and> \<not> pumpRunning (loops a dts (delay 50 (schedule_block s)))
       \<and> wateredToday (loops a dts (delay 50 (schedule_block s)))
       \<and> (scheduleOn (cfg s0) \<and> startHour (cfg s0) = 7 \<and> startMin (cfg s0) = 0
            \<and> \<not> pumpRunning s0 \<and> \<not> wateredToday s0
            \<and> 25200 \<le> unat (secondsToday (one_second_ticker s0))
            \<and> unat (secondsToday (one_second_ticker s0)) < 25220
            \<and> unat (secondsToday (one_second_ticker s0)) + ticks a dts (loop a s0) < 86400
          \<longrightarrow> pump_on_calls (trace (loop a s0)) = pump_on_calls (trace s0) + 1
            \<and> relay_writes (trace (loop a s0)) = relay_writes (trace s0) + 2
            \<and> pump_on_calls (trace (loops a dts (loop a s0))) = pump_on_calls (trace s0) + 1
            \<and> relay_writes (trace (loops a dts (loop a s0))) = relay_writes (trace s0) + 2
            \<and> \<not> pumpRunning (loops a dts (loop a s0))
            \<and> wateredToday (loops a dts (loop a s0)))"
proof -
  note f = schedule_fires_once [OF assms(1,2,3,5,6,7)]
  note l = schedule_then_idle [OF assms(1,2,3,5,6,7,8)]
  have on: "pumpRunning (setPump True s)"
    "trace (setPump True s) = trace s @
            [DigitalWrite RELAY_PIN (\<not> relayActiveLow (cfg s)),
             Notify CHR_STATE (Bytes [1, flowPct (cfg s)]),
             SerialPrintln ''Pump ON''] @
            (if clientConnected s then [Notify CHR_LOG (Text ''Pump ON'')] else [])"
    by (simp_all add: setPump_eq)
  have tr: "trace (schedule_block s) = trace (setPump True s) @
            [Delay (ucast (durationSec (cfg s)) * 1000),
             DigitalWrite RELAY_PIN (relayActiveLow (cfg s)),
             Notify CHR_STATE (Bytes [0, flowPct (cfg s)]),
             SerialPrintln ''Pump OFF''] @
            (if clientConnected s then [Notify CHR_LOG (Text ''Pump OFF'')] else []) @
            SerialPrintln ''Scheduled watering done'' #
            (if clientConnected s then [Notify CHR_LOG (Text ''Scheduled watering done'')] else [])"
    unfolding f(1) by (simp add: setPump_eq delay_eq scheduled_watering_end_eq)
  have pass: "scheduleOn (cfg s0) \<and> startHour (cfg s0) = 7 \<and> startMin (cfg s0) = 0
            \<and> \<not> pumpRunning s0 \<and> \<not> wateredToday s0
            \<and> 25200 \<le> unat (secondsToday (one_second_ticker s0))
            \<and> unat (secondsToday (one_second_ticker s0)) < 25220
            \<and> unat (secondsToday (one_second_ticker s0)) + ticks a dts (loop a s0) < 86400
          \<longrightarrow> pump_on_calls (trace (loop a s0)) = pump_on_calls (trace s0) + 1
            \<and> relay_writes (trace (loop a s0)) = relay_writes (trace s0) + 2
            \<and> pump_on_calls (trace (loops a dts (loop a s0))) = pump_on_calls (trace s0) + 1
            \<and> relay_writes (trace (loops a dts (loop a s0))) = relay_writes (trace s0) + 2
            \<and> \<not> pumpRunning (loops a dts (loop a s0))
            \<and> wateredToday (loops a dts (loop a s0))"
  proof
    assume h: "scheduleOn (cfg s0) \<and> startHour (cfg s0) = 7 \<and> startMin (cfg s0) = 0
            \<and> \<not> pumpRunning s0 \<and> \<not> wateredToday s0
            \<and> 25200 \<le> unat (secondsToday (one_second_ticker s0))
            \<and> unat (secondsToday (one_second_ticker s0)) < 25220
            \<and> unat (secondsToday (one_second_ticker s0)) + ticks a dts (loop a s0) < 86400"
    let ?m = "level_block a (soil_block a (one_second_ticker s0))"
    have p: "loop a s0 = delay 50 (schedule_block ?m)" "cfg ?m = cfg s0" "\<not> wateredToday ?m"
      "secondsToday ?m = secondsToday (one_second_ticker s0)"
      "pump_on_calls (trace ?m) = pump_on_calls (trace s0)"
      "relay_writes (trace ?m) = relay_writes (trace s0)"
      using h by (simp_all add: pass_reaches_schedule)
    have m: "scheduleOn (cfg ?m)" "startHour (cfg ?m) = 7" "startMin (cfg ?m) = 0"
      "\<not> wateredToday ?m" "25200 \<le> unat (secondsToday ?m)" "unat (secondsToday ?m) < 25220"
      "unat (secondsToday ?m) + ticks a dts (delay 50 (schedule_block ?m)) < 86400"
      using h p(3) by (simp_all add: p(2) p(4) p(1) [symmetric])
    note f' = schedule_fires_once [OF m(1-6)]
    note l' = schedule_then_idle [OF m]
    show "pump_on_calls (trace (loop a s0)) = pump_on_calls (trace s0) + 1
            \<and> relay_writes (trace (loop a s0)) = relay_writes (trace s0) + 2
            \<and> pump_on_calls (trace (loops a dts (loop a s0))) = pump_on_calls (trace s0) + 1
            \<and> relay_writes (trace (loops a dts (loop a s0))) = relay_writes (trace s0) + 2
            \<and> \<not> pumpRunning (loops a dts (loop a s0))
            \<and> wateredToday (loops a dts (loop a s0))"
      unfolding p(1) using f'(6,7) l' by (simp add: p(5) p(6) delay_frame delay_relay)
  qed
  show ?thesis
    by (intro conjI) (fact on tr f l [THEN conjunct1] l [THEN conjunct2, THEN conjunct1]
        l [THEN conjunct2, THEN conjunct2, THEN conjunct1]
        l [THEN conjunct2, THEN conjunct2, THEN conjunct2] pass)+
qed

theorem scheduled_once_per_day_witness:
  "scheduleOn (cfg sched_state) \<and> startHour (cfg sched_state) = 7 \<and> startMin (cfg sched_state) = 0
   \<and> \<not> pumpRunning sched_state \<and> \<not> wateredToday sched_state
   \<and> 25200 \<le> unat (secondsToday sched_state) \<and> unat (secondsToday sched_state) < 25220
   \<and> unat (secondsToday sched_state)
        + ticks (const_adc 0) [0, 1000, 0] (delay 50 (schedule_block sched_state)) < 86400
   \<and> 25200 \<le> unat (secondsToday (one_second_ticker sched_state))
   \<and> unat (secondsToday (one_second_ticker sched_state)) < 25220
   \<and> unat (secondsToday (one_second_ticker sched_state))
        + ticks (const_adc 0) [0, 1000, 0] (loop (const_adc 0) sched_state) < 86400
   \<and> pumpRunning (setPump True sched_state)
   \<and> trace (schedule_block sched_state) =
        [DigitalWrite 26 False, Notify CHR_STATE (Bytes [1, 100]), SerialPrintln ''Pump ON'',
         Delay 30000,
         DigitalWrite 26 True, Notify CHR_STATE (Bytes [0, 100]), SerialPrintln ''Pump OFF'',
         SerialPrintln ''Scheduled watering done'']
   \<and> \<not> pumpRunning (schedule_block sched_state)
   \<and> wateredToday (schedule_block sched_state)
   \<and> pump_on_calls (trace (loops (const_adc 0) [0, 1000, 0] (delay 50 (schedule_block sched_state)))) = 1
   \<and> relay_writes (trace (loops (const_adc 0) [0, 1000, 0] (delay 50 (schedule_block sched_state)))) = 2
   \<and> \<not> pumpRunning (loops (const_adc 0) [0, 1000, 0] (delay 50 (schedule_block sched_state)))
   \<and> pump_on_calls (trace (loops (const_adc 0) [0, 1000, 0] (loop (const_adc 0) sched_state))) = 1
   \<and> relay_writes (trace (loops (const_adc 0) [0, 1000, 0] (loop (const_adc 0) sched_state))) = 2
   \<and> \<not> pumpRunning (loops (const_adc 0) [0, 1000, 0] (loop (const_adc 0) sched_state))"
proof -
  let ?a = "const_adc 0"
  let ?dts = "[0, 1000, 0 :: u32]"
  have h: "scheduleOn (cfg sched_state)" "startHour (cfg sched_state) = 7"
    "startMin (cfg sched_state) = 0" "\<not> pumpRunning sched_state" "\<not> wateredToday sched_state"
    "25200 \<le> unat (secondsToday sched_state)" "unat (secondsToday sched_state) < 25220"
    and v: "trace sched_state = []" "\<not> clientConnected sched_state"
      "flowPct (cfg sched_state) = 100" "durationSec (cfg sched_state) = 30"
      "relayActiveLow (cfg sched_state)"
    and z: "pump_on_calls (trace sched_state) = 0" "relay_writes (trace sched_state) = 0"
    and tk: "secondsToday (one_second_ticker sched_state) = secondsToday sched_state"
    by (simp_all add: sched_state_def init_sys_def default_cfg_def pump_on_calls_def
        relay_writes_def one_second_ticker_def)
  have b1: "unat (secondsToday sched_state) + ticks ?a ?dts (delay 50 (schedule_block sched_state)) < 86400"
    using ticks_le_length [of ?a ?dts "delay 50 (schedule_block sched_state)"] h(7) by simp
  have b2: "unat (secondsToday (one_second_ticker sched_state))
      + ticks ?a ?dts (loop ?a sched_state) < 86400"
    using ticks_le_length [of ?a ?dts "loop ?a sched_state"] h(7) by (simp add: tk)
  have w1: "25200 \<le> unat (secondsToday (one_second_ticker sched_state))"
    and w2: "unat (secondsToday (one_second_ticker sched_state)) < 25220"
    using h(6,7) by (simp_all add: tk)
  note t = scheduled_once_per_day [where s = sched_state and a = ?a and dts = ?dts
      and ?s0.0 = sched_state, OF h b1]
  have on: "pumpRunning (setPump True sched_state)"
    and ton: "trace (setPump True sched_state) = trace sched_state @
            [DigitalWrite RELAY_PIN (\<not> relayActiveLow (cfg sched_state)),
             Notify CHR_STATE (Bytes [1, flowPct (cfg sched_state)]),
             SerialPrintln ''Pump ON''] @
            (if clientConnected sched_state then [Notify CHR_LOG (Text ''Pump ON'')] else [])"
    and tsb: "trace (schedule_block sched_state) = trace (setPump True sched_state) @
            [Delay (ucast (durationSec (cfg sched_state)) * 1000),
             DigitalWrite RELAY_PIN (relayActiveLow (cfg sched_state)),
             Notify CHR_STATE (Bytes [0, flowPct (cfg sched_state)]),
             SerialPrintln ''Pump OFF''] @
            (if clientConnected sched_state then [Notify CHR_LOG (Text ''Pump OFF'')] else []) @
            SerialPrintln ''Scheduled watering done'' #
            (if clientConnected sched_state then [Notify CHR_LOG (Text ''Scheduled watering done'')] else [])"
    and idle: "\<not> pumpRunning (schedule_block sched_state)"
    and wd: "wateredToday (schedule_block sched_state)"
    and p1: "pump_on_calls (trace (loops ?a ?dts (delay 50 (schedule_block sched_state))))
               = pump_on_calls (trace sched_state) + 1"
    and r1: "relay_writes (trace (loops ?a ?dts (delay 50 (schedule_block sched_state))))
               = relay_writes (trace sched_state) + 2"
    and i1: "\<not> pumpRunning (loops ?a ?dts (delay 50 (schedule_block sched_state)))"
    and p2: "pump_on_calls (trace (loops ?a ?dts (loop ?a sched_state)))
               = pump_on_calls (trace sched_state) + 1"
    and r2: "relay_writes (trace (loops ?a ?dts (loop ?a sched_state)))
               = relay_writes (trace sched_state) + 2"
    and i2: "\<not> pumpRunning (loops ?a ?dts (loop ?a sched_state))"
    using t h w1 w2 b2 by blast+
  have tr: "trace (schedule_block sched_state) =
        [DigitalWrite 26 False, Notify CHR_STATE (Bytes [1, 100]), SerialPrintln ''Pump ON'',
         Delay 30000,
         DigitalWrite 26 True, Notify CHR_STATE (Bytes [0, 100]), SerialPrintln ''Pump OFF'',
         SerialPrintln ''Scheduled watering done'']"
    unfolding tsb ton by (simp add: v RELAY_PIN_def)
  have n: "pump_on_calls (trace (loops ?a ?dts (delay 50 (schedule_block sched_state)))) = 1"
    "relay_writes (trace (loops ?a ?dts (delay 50 (schedule_block sched_state)))) = 2"
    "pump_on_calls (trace (loops ?a ?dts (loop ?a sched_state))) = 1"
    "relay_writes (trace (loops ?a ?dts (loop ?a sched_state))) = 2"
    using p1 r1 p2 r2 z by simp_all
  show ?thesis
    by (intro conjI) (fact h b1 b2 w1 w2 on tr idle wd n i1 i2)+
qed

section \<open>Triggers and commands while the pump runs\<close>

text \<open>
  C1, as far as it holds of the code: in a state with the pump running the threshold
  trigger is ignored. The soil evaluation publishes the reading and stamps
  \<open>lastSoilTime\<close>, and nothing else: no \<open>setPump\<close> call, the pump still running. An ON
  command in such a state changes no variable of the sketch, but it does call
  \<open>setPump(true)\<close> once more: one relay write, one state notification and one log line
  are added to the trace.
\<close>

theorem running_threshold_ignored:
  assumes "pumpRunning s"
  shows "soil_eval soil s = s\<lparr>lastSoilTime := millis s,
            trace := trace s @ [Notify CHR_SOIL (Bytes [ucast soil, ucast (drop_bit 8 soil)])]\<rparr>
       \<and> setPump_calls (trace (soil_eval soil s)) = setPump_calls (trace s)
       \<and> pumpRunning (soil_eval soil s)
       \<and> CmdCallbacks_onWrite a ''ON'' s = Inr (setPump True s)
       \<and> setPump True s = s\<lparr>trace := trace s @
             [DigitalWrite RELAY_PIN (\<not> relayActiveLow (cfg s)),
              Notify CHR_STATE (Bytes [1, flowPct (cfg s)]),
              SerialPrintln ''Pump ON''] @
             (if clientConnected s then [Notify CHR_LOG (Text ''Pump ON'')] else [])\<rparr>
       \<and> setPump_calls (trace (setPump True s)) = setPump_calls (trace s) + 1"
proof -
  have soil: "soil_eval soil s = s\<lparr>lastSoilTime := millis s,
      trace := trace s @ [Notify CHR_SOIL (Bytes [ucast soil, ucast (drop_bit 8 soil)])]\<rparr>"
    using assms by (simp add: soil_eval_idle_eq)
  have "s\<lparr>pumpRunning := True\<rparr> = s"
    using assms by simp
  then have on: "setPump True s = s\<lparr>trace := trace s @
             [DigitalWrite RELAY_PIN (\<not> relayActiveLow (cfg s)),
              Notify CHR_STATE (Bytes [1, flowPct (cfg s)]),
              SerialPrintln ''Pump ON''] @
             (if clientConnected s then [Notify CHR_LOG (Text ''Pump ON'')] else [])\<rparr>"
    by (simp add: setPump_eq)
  have calls: "setPump_calls (trace (setPump True s)) = setPump_calls (trace s) + 1"
    by (simp add: setPump_eq setPump_calls_def)
  show ?thesis
    using assms soil on calls by (simp add: onWrite_ON setPump_calls_def)
qed

theorem running_threshold_ignored_witness:
  "pumpRunning running_state
   \<and> soil_eval 2500 running_state =
       running_state\<lparr>trace := [Notify CHR_SOIL (Bytes [0xC4, 0x09])]\<rparr>
   \<and> setPump_calls (trace (soil_eval 2500 running_state)) = 0
   \<and> setPump_calls (trace (setPump True running_state)) = 1"
  using running_threshold_ignored [of running_state 2500 "const_adc 0"]
  by (simp add: running_state_def init_sys_def setPump_calls_def)

text \<open>
  That every trigger is without effect while the pump runs does not hold. ON in a
  running state repeats the actuator call. The schedule block, which unlike the
  threshold check does not test \<open>pumpRunning\<close>, runs a whole scheduled watering in a
  running state and leaves the pump off.
\<close>

theorem running_trigger_counterexample:
  "pumpRunning running_state
   \<and> CmdCallbacks_onWrite (const_adc 0) ''ON'' running_state =
       Inr (running_state\<lparr>trace :=
         [DigitalWrite 26 False, Notify CHR_STATE (Bytes [1, 100]), SerialPrintln ''Pump ON'']\<rparr>)
   \<and> CmdCallbacks_onWrite (const_adc 0) ''ON'' running_state \<noteq> Inr running_state
   \<and> pumpRunning running_in_window
   \<and> schedule_block running_in_window =
       running_in_window\<lparr>pumpRunning := False, wateredToday := True, millis := 30000, trace :=
         [DigitalWrite 26 False, Notify CHR_STATE (Bytes [1, 100]), SerialPrintln ''Pump ON'',
          Delay 30000,
          DigitalWrite 26 True, Notify CHR_STATE (Bytes [0, 100]), SerialPrintln ''Pump OFF'',
          SerialPrintln ''Scheduled watering done'']\<rparr>
   \<and> schedule_block running_in_window \<noteq> running_in_window"
  by (simp add: running_state_def running_in_window_def init_sys_def default_cfg_def onWrite_ON
      setPump_eq schedule_block_def Let_def watering_begin_eq scheduled_watering_end_eq RELAY_PIN_def)

text \<open>
  C2, as far as it holds of the code: in every state with the pump running, however it
  was started, the OFF command is \<open>setPump(false)\<close>: \<open>pumpRunning\<close> becomes false, the
  relay is driven to its off level, the state \<open>[0, flowPct]\<close> is notified and logged,
  and nothing else changes. No deadline is stored and no completion is cancelled: the
  statements that end a timed run after its \<open>delay\<close> are unconditional. From any state
  \<open>s'\<close> they call \<open>setPump(false)\<close> (and a scheduled run sets \<open>wateredToday\<close>).
\<close>

theorem off_stops_pump:
  assumes "pumpRunning s"
  shows "CmdCallbacks_onWrite a ''OFF'' s = Inr (setPump False s)
       \<and> setPump False s = s\<lparr>pumpRunning := False, trace := trace s @
             [DigitalWrite RELAY_PIN (relayActiveLow (cfg s)),
              Notify CHR_STATE (Bytes [0, flowPct (cfg s)]),
              SerialPrintln ''Pump OFF''] @
             (if clientConnected s then [Notify CHR_LOG (Text ''Pump OFF'')] else [])\<rparr>
       \<and> \<not> pumpRunning (setPump False s)
       \<and> \<not> pumpRunning (auto_watering_end s')
       \<and> setPump_calls (trace (auto_watering_end s')) = setPump_calls (trace s') + 1
       \<and> wateredToday (scheduled_watering_end s')
       \<and> setPump_calls (trace (scheduled_watering_end s')) = setPump_calls (trace s') + 1"
  by (simp add: onWrite_OFF setPump_eq auto_watering_end_eq scheduled_watering_end_eq
      setPump_calls_def)

theorem off_stops_pump_witness:
  "pumpRunning running_state
   \<and> CmdCallbacks_onWrite (const_adc 0) ''OFF'' running_state =
       Inr (init_sys\<lparr>trace :=
         [DigitalWrite 26 True, Notify CHR_STATE (Bytes [0, 100]), SerialPrintln ''Pump OFF'']\<rparr>)"
  using off_stops_pump [of running_state "const_adc 0" init_sys]
  by (simp add: running_state_def init_sys_def default_cfg_def RELAY_PIN_def)

text \<open>
  OFF does not cancel the completion of a run in progress. When OFF is handled while a
  timed run is inside its \<open>delay\<close>, the pump goes off, and the end of the run follows
  all the same: a second \<open>setPump(false)\<close> and the completion line (and, for a scheduled
  run, \<open>wateredToday = true\<close>).
\<close>

theorem off_completion_counterexample:
  "pumpRunning run_in_progress
   \<and> CmdCallbacks_onWrite (const_adc 0) ''OFF'' run_in_progress = Inr (setPump False run_in_progress)
   \<and> \<not> pumpRunning (setPump False run_in_progress)
   \<and> trace (auto_watering_end (setPump False run_in_progress)) =
        [DigitalWrite 26 False, Notify CHR_STATE (Bytes [1, 100]), SerialPrintln ''Pump ON'',
         Delay 30000,
         DigitalWrite 26 True, Notify CHR_STATE (Bytes [0, 100]), SerialPrintln ''Pump OFF'',
         DigitalWrite 26 True, Notify CHR_STATE (Bytes [0, 100]), SerialPrintln ''Pump OFF'',
         SerialPrintln ''Auto watering completed'']
   \<and> wateredToday (scheduled_watering_end (setPump False run_in_progress))"
  by (simp add: run_in_progress_def init_sys_def default_cfg_def onWrite_OFF setPump_eq
      watering_begin_eq auto_watering_end_eq scheduled_watering_end_eq RELAY_PIN_def)

section \<open>Autotune\<close>

declare autotune_sample.simps [simp del]

lemma delays_frame:
  "cfg ((delay ms ^^ j) s) = cfg s"
  "prefs ((delay ms ^^ j) s) = prefs s"
  "clientConnected ((delay ms ^^ j) s) = clientConnected s"
  "pumpRunning ((delay ms ^^ j) s) = pumpRunning s"
  "wateredToday ((delay ms ^^ j) s) = wateredToday s"
  "secondsToday ((delay ms ^^ j) s) = secondsToday s"
  "trace ((delay ms ^^ j) s) = trace s @ replicate j (Delay ms)"
  by (induction j) (simp_all add: delay_eq replicate_append_same)

lemma autotune_sample_const:
  assumes "\<forall>t. a SOIL_PIN t = r"
    and "unat (millis s - tz) + 100 * j = 10000"
  shows "autotune_sample a tz sumv n s =
           (sumv + of_nat j * ucast r, n + of_nat j, (delay 100 ^^ j) s)"
  using assms(2)
proof (induction j arbitrary: s sumv n)
  case 0
  then have "\<not> millis s - tz < 10000"
    by (simp add: word_less_nat_alt)
  then show ?case
    by (simp add: autotune_sample.simps)
next
  case (Suc j)
  then have lt: "unat (millis s - tz) < 10000" by simp
  then have guard: "millis s - tz < 10000"
    by (simp add: word_less_nat_alt)
  have eq: "millis (delay 100 s) - tz = (millis s - tz) + 100"
    by (simp add: delay_eq)
  have "unat ((millis s - tz) + 100) = unat (millis s - tz) + 100"
    using lt by (simp add: unat_word_ariths)
  then have "unat (millis (delay 100 s) - tz) = unat (millis s - tz) + 100"
    by (simp only: eq)
  then have "unat (millis (delay 100 s) - tz) + 100 * j = 10000"
    using Suc.prems by simp
  then have "autotune_sample a tz (sumv + ucast (analogRead a SOIL_PIN s)) (n + 1) (delay 100 s) =
      (sumv + ucast (analogRead a SOIL_PIN s) + of_nat j * ucast r, n + 1 + of_nat j,
       (delay 100 ^^ j) (delay 100 s))"
    by (rule Suc.IH)
  moreover have "analogRead a SOIL_PIN s = r"
    using assms(1) by (simp add: analogRead_def)
  ultimately show ?case
    using guard by (subst autotune_sample.simps) (simp add: funpow_swap1 algebra_simps)
qed

lemma unat_ucast_16_32: "unat (ucast (r :: u16) :: u32) = unat r"
proof -
  have "unat r < 2 ^ 32"
    using unsigned_less [of r, where ?'a = nat] by simp
  then show ?thesis
    by (simp add: unsigned_ucast_eq take_bit_nat_eq_self)
qed

lemma mean_of_constant: "(100 * ucast (r :: u16) :: u32) div 100 = ucast r"
proof -
  have "unat r < 65536"
    using unsigned_less [of r, where ?'a = nat] by simp
  then have "unat (100 * ucast r :: u32) = 100 * unat (ucast r :: u32)"
    by (simp add: unat_word_ariths unat_ucast_16_32)
  then have "unat ((100 * ucast r :: u32) div 100) = unat (ucast r :: u32)"
    by (simp add: unat_div)
  then show ?thesis
    by (simp only: word_unat_eq_iff)
qed

lemma ucast_down_up: "(ucast (ucast (r :: u16) :: u32) :: u16) = r"
  by (rule ucast_up_ucast_id) (simp add: is_up)

lemma onWrite_AUTOTUNE:
  "CmdCallbacks_onWrite a ''AUTOTUNE'' s =
     (let s1 = log ''Autotune started (10 sec dry reading)...'' s;
          s2 = delay 2000 s1;
          (sumv, n, s3) = autotune_sample a (millis s2) 0 0 s2
      in autotune_finish sumv n s3)"
  by (simp add: CmdCallbacks_onWrite_def c_str_def startsWith_def)

lemma autotune_finish_100:
  "autotune_finish (100 * ucast (r :: u16)) 100 s =
     (let s1 = s\<lparr>cfg := (cfg s)\<lparr>threshold := r + 200\<rparr>\<rparr>;
          s2 = saveConfig s1;
          s3 = log (''Autotune done '' @ [CHR 0xE2, CHR 0x86, CHR 0x92] @ '' new threshold = ''
                     @ decimal (unat (threshold (cfg s2)))) s2
      in Inr (emit (Notify CHR_CONFIG (Bytes (packConfig (cfg s3)))) s3))"
  by (simp add: autotune_finish_def udiv_def mean_of_constant ucast_down_up del: decimal.simps)

lemma mean_of_constant_n:
  assumes "n \<noteq> 0" and "unat (n :: u32) \<le> 65536"
  shows "(n * ucast (r :: u16)) div n = ucast r"
proof -
  have r: "unat r \<le> 65535"
    using unsigned_less [of r, where ?'a = nat] by simp
  have "unat n * unat r \<le> 65536 * 65535"
    using assms(2) r by (rule mult_le_mono)
  then have "unat (n * ucast r) = unat n * unat r"
    by (simp add: unat_word_ariths unat_ucast_16_32)
  moreover have "unat n \<noteq> 0"
    using assms(1) by (simp add: unat_eq_0)
  ultimately have "unat ((n * ucast r) div n) = unat (ucast r :: u32)"
    by (simp add: unat_div unat_ucast_16_32)
  then show ?thesis
    by (simp only: word_unat_eq_iff)
qed

lemma autotune_finish_const:
  assumes "0 < sint n" and "unat (n :: u32) \<le> 65536"
  shows "\<exists>s'. autotune_finish (n * ucast r) n s = Inr s' \<and> cfg s' = (cfg s)\<lparr>threshold := r + 200\<rparr>"
proof -
  have "n \<noteq> 0" using assms(1) by auto
  then show ?thesis
    using assms
    by (simp add: autotune_finish_def udiv_def mean_of_constant_n ucast_down_up Let_def
        saveConfig_def log_eq emit_def del: decimal.simps)
qed

text \<open>
  C8: when the soil sensor reads the constant \<open>r\<close> throughout, the AUTOTUNE command
  returns with \<open>threshold = r + 200\<close> (in the 16-bit arithmetic of the field; the
  number \<open>r + 200\<close> itself whenever that fits in 16 bits, as it does for every reading
  of the 12-bit converter) and the other fields unchanged, has stored this configuration
  in the preferences, and its last act is to notify the packed new configuration. The
  threshold does not depend on how many samples the window holds: for any count \<open>n\<close>
  from 1 to 65536 of readings \<open>r\<close> the code after the loop sets it to \<open>r + 200\<close>.
\<close>

theorem autotune_constant_reading:
  assumes "\<forall>t. a SOIL_PIN t = r"
  shows "\<exists>s'. CmdCallbacks_onWrite a ''AUTOTUNE'' s = Inr s'
      \<and> cfg s' = (cfg s)\<lparr>threshold := r + 200\<rparr>
      \<and> (unat r + 200 < 65536 \<longrightarrow> unat (threshold (cfg s')) = unat r + 200)
      \<and> prefs s' = (prefs s)
           (''th'' \<mapsto> UShort (r + 200),
            ''fp'' \<mapsto> UChar (flowPct (cfg s)),
            ''sh'' \<mapsto> UChar (startHour (cfg s)),
            ''sm'' \<mapsto> UChar (startMin (cfg s)),
            ''dur'' \<mapsto> UShort (durationSec (cfg s)),
            ''sch'' \<mapsto> PBool (scheduleOn (cfg s)),
            ''inv'' \<mapsto> PBool (relayActiveLow (cfg s)))
      \<and> last (trace s') = Notify CHR_CONFIG (Bytes (packConfig ((cfg s)\<lparr>threshold := r + 200\<rparr>)))
      \<and> (0 < sint n \<and> unat n \<le> 65536 \<longrightarrow>
           (\<exists>s''. autotune_finish (n * ucast r) n s = Inr s''
              \<and> cfg s'' = (cfg s)\<lparr>threshold := r + 200\<rparr>))"
proof -
  let ?s2 = "delay 2000 (log ''Autotune started (10 sec dry reading)...'' s)"
  have "unat (millis ?s2 - millis ?s2) + 100 * 100 = 10000"
    by simp
  from autotune_sample_const [where a = a and r = r and s = ?s2 and tz = "millis ?s2" and j = 100 and sumv = 0 and n = 0,
      OF assms this]
  have sample: "autotune_sample a (millis ?s2) 0 0 ?s2 =
      (100 * ucast r, 100, (delay 100 ^^ 100) ?s2)"
    by simp
  have add: "unat r + 200 < 65536 \<Longrightarrow> unat (r + 200) = unat r + 200"
    by (simp add: unat_word_ariths)
  have any: "0 < sint n \<and> unat n \<le> 65536 \<longrightarrow>
      (\<exists>s''. autotune_finish (n * ucast r) n s = Inr s''
         \<and> cfg s'' = (cfg s)\<lparr>threshold := r + 200\<rparr>)"
    using autotune_finish_const [of n r s] by blast
  show ?thesis
    unfolding onWrite_AUTOTUNE Let_def sample prod.case autotune_finish_100
    using any
    by (simp add: saveConfig_def log_eq emit_def delay_eq delays_frame add del: decimal.simps)
qed

theorem autotune_constant_reading_witness:
  "(\<forall>t. const_adc 1000 SOIL_PIN t = 1000)
   \<and> (\<exists>s'. CmdCallbacks_onWrite (const_adc 1000) ''AUTOTUNE'' init_sys = Inr s'
        \<and> threshold (cfg s') = 1200 \<and> unat (threshold (cfg s')) = 1200
        \<and> prefs s' ''th'' = Some (UShort 1200)
        \<and> last (trace s') = Notify CHR_CONFIG (Bytes [176, 4, 100, 7, 0, 30, 0, 0, 1, 170]))
   \<and> 0 < sint (7 :: u32) \<and> unat (7 :: u32) \<le> 65536
   \<and> (\<exists>s''. autotune_finish 7000 7 init_sys = Inr s'' \<and> threshold (cfg s'') = 1200)"
  using autotune_constant_reading [of "const_adc 1000" 1000 init_sys 7]
  by (auto simp add: const_adc_def init_sys_def default_cfg_def packConfig_def)

text \<open>
  C10: the division of AUTOTUNE is guarded by \<open>n > 0\<close>. With no sample (\<open>n = 0\<close>) the
  code after the sampling loop divides nothing and returns the state as it was, the
  threshold and every other field included; for no \<open>sum\<close> and \<open>n\<close> does it divide by
  zero, and so no command ever ends in a division by zero.
\<close>

theorem autotune_never_divides_by_zero:
  "autotune_finish sumv 0 s = Inr s
   \<and> (\<forall>f. autotune_finish sumv n s \<noteq> Inl f)
   \<and> (\<forall>f. CmdCallbacks_onWrite a v s \<noteq> Inl f)"
proof -
  have fin: "autotune_finish x m t \<noteq> Inl f" for x m t f
    by (auto simp add: autotune_finish_def udiv_def Let_def)
  have "CmdCallbacks_onWrite a v s \<noteq> Inl f" for f
    by (simp add: CmdCallbacks_onWrite_def Let_def fin split: prod.split)
  then show ?thesis
    by (simp add: fin) (simp add: autotune_finish_def)
qed

theorem autotune_never_divides_by_zero_witness:
  "autotune_finish 0 0 init_sys = Inr init_sys
   \<and> CmdCallbacks_onWrite (const_adc 0) ''AUTOTUNE'' init_sys \<noteq> Inl DivideByZero"
  using autotune_never_divides_by_zero [of 0 init_sys 0 "const_adc 0" "''AUTOTUNE''"]
  by simp

end
